theory Spec2Isabelle
  imports Main "HOL-Library.Word"
begin

section \<open>The besdbg debug driver (drivers/net/wireless/st/cw1200/besdbg.c)\<close>

text \<open>
  The driver is a thin layer over kernel services: the SDIO bus, a GPIO line, the
  allocator and the user-copy routines. Those services are not part of the driver, so the
  model takes them as an environment: a record of functions over an arbitrary external
  state \<open>'e\<close>. Every theorem below holds for every environment, that is for every
  behaviour of the bus, of the allocator and of user memory. Each call the driver makes
  to a service is written to a log, in program order, so that properties such as
  "exactly N reads, at these addresses" are statements about the log.
\<close>

type_synonym u8 = "8 word"
type_synonym u32 = "32 word"
type_synonym u64 = "64 word"

subsection \<open>Data\<close>

text \<open>\<^verbatim>\<open>struct besdbg_data { __u32 reg; __u32 len; __u64 data; }\<close>\<close>

record besdbg_data =
  reg :: u32
  len :: u32
  data :: u64

text \<open>
  \<^verbatim>\<open>struct besdbg_priv\<close>: the bus function and the wake-up GPIO are handles of the
  environment, and the character device is identified by its number.
\<close>

record besdbg_priv =
  major :: u32

text \<open>Error numbers of the kernel (\<^verbatim>\<open>errno-base.h\<close>).\<close>

definition ENOMEM :: int where "ENOMEM = 12"
definition EFAULT :: int where "EFAULT = 14"
definition EINVAL :: int where "EINVAL = 22"

text \<open>
  The request codes. \<^verbatim>\<open>_IO\<close>, \<^verbatim>\<open>_IOR\<close> and \<^verbatim>\<open>_IOW\<close> are the generic encoding of
  \<^verbatim>\<open>asm-generic/ioctl.h\<close>: direction in bits 30-31 (write 1, read 2), argument size in
  bits 16-29, magic in bits 8-15, number in bits 0-7. The argument is a
  \<^verbatim>\<open>struct besdbg_data\<close> of 16 bytes.
\<close>

definition BESDBG_MAGIC :: u32 where "BESDBG_MAGIC = 0xEE"

definition IOC :: "u32 \<Rightarrow> u32 \<Rightarrow> u32 \<Rightarrow> u32 \<Rightarrow> u32" where
  "IOC dir ty nr sz =
     push_bit 30 dir + push_bit 16 sz + push_bit 8 ty + nr"

definition BESDBG_IOCTL_RESET :: u32 where
  "BESDBG_IOCTL_RESET = IOC 0 BESDBG_MAGIC 0x10 0"
definition BESDBG_IOCTL_REG_READ :: u32 where
  "BESDBG_IOCTL_REG_READ = IOC 2 BESDBG_MAGIC 0x11 16"
definition BESDBG_IOCTL_REG_WRITE :: u32 where
  "BESDBG_IOCTL_REG_WRITE = IOC 1 BESDBG_MAGIC 0x12 16"
definition BESDBG_IOCTL_MEM_READ :: u32 where
  "BESDBG_IOCTL_MEM_READ = IOC 2 BESDBG_MAGIC 0x13 16"
definition BESDBG_IOCTL_MEM_WRITE :: u32 where
  "BESDBG_IOCTL_MEM_WRITE = IOC 1 BESDBG_MAGIC 0x14 16"

subsection \<open>The environment and the log\<close>

text \<open>
  One event per call to a kernel service, with the arguments that matter and the result
  the service gave.
\<close>

datatype event =
    Gpio bool                    \<comment> \<open>\<^verbatim>\<open>gpiod_direction_output(wakeup_device_gpio, v)\<close>\<close>
  | Claim                        \<comment> \<open>\<^verbatim>\<open>sdio_claim_host\<close>\<close>
  | Release                      \<comment> \<open>\<^verbatim>\<open>sdio_release_host\<close>\<close>
  | HwReset int                  \<comment> \<open>\<^verbatim>\<open>mmc_hw_reset\<close> and its result\<close>
  | Msleep nat
  | EnableFunc int               \<comment> \<open>\<^verbatim>\<open>sdio_enable_func\<close> and its result\<close>
  | DisableFunc int
  | ReadB u32 u8 int             \<comment> \<open>\<^verbatim>\<open>sdio_readb\<close>: address, byte, error\<close>
  | WriteB u8 u32 int            \<comment> \<open>\<^verbatim>\<open>sdio_writeb\<close>: byte, address, error\<close>
  | MemcpyFromio u32 nat int     \<comment> \<open>\<^verbatim>\<open>sdio_memcpy_fromio\<close>: address, count, result\<close>
  | MemcpyToio u32 "u8 list" int \<comment> \<open>\<^verbatim>\<open>sdio_memcpy_toio\<close>: address, bytes, result\<close>
  | Kmalloc nat bool             \<comment> \<open>size, and whether a buffer was returned\<close>
  | Kfree nat                    \<comment> \<open>the buffer freed\<close>
  | CopyReq u64 bool             \<comment> \<open>\<^verbatim>\<open>copy_from_user(&r, argp, sizeof(r))\<close> and whether it worked\<close>
  | CopyFromUser u64 nat bool    \<comment> \<open>user address, count, whether it worked\<close>
  | CopyToUser u64 "u8 list" bool
  | DevWarn
  | DevErr
  | CdevDel
  | UnregisterChrdev u32
  | DeviceDestroy u32
  | MemFault                     \<comment> \<open>an access outside a live buffer (undefined in C)\<close>

text \<open>
  The services. A buffer that a service fills is given as the byte it leaves at each
  offset. \<open>env_copy_req\<close> and \<open>env_copy_from_user\<close> are \<open>None\<close> when the copy faults
  (a nonzero return of \<^verbatim>\<open>copy_from_user\<close>); \<open>env_copy_to_user\<close> returns the number of
  bytes it could not copy; \<open>env_kmalloc\<close> is \<open>None\<close> when the allocation fails, and
  otherwise gives the uninitialised content of the new buffer.
\<close>

record 'e env =
  env_copy_req :: "'e \<Rightarrow> u64 \<Rightarrow> besdbg_data option"
  env_copy_from_user :: "'e \<Rightarrow> u64 \<Rightarrow> nat \<Rightarrow> (nat \<Rightarrow> u8) option"
  env_copy_to_user :: "'e \<Rightarrow> u64 \<Rightarrow> u8 list \<Rightarrow> nat \<times> 'e"
  env_kmalloc :: "'e \<Rightarrow> nat \<Rightarrow> (nat \<Rightarrow> u8) option"
  env_readb :: "'e \<Rightarrow> u32 \<Rightarrow> (u8 \<times> int) \<times> 'e"
  env_writeb :: "'e \<Rightarrow> u8 \<Rightarrow> u32 \<Rightarrow> int \<times> 'e"
  env_memcpy_fromio :: "'e \<Rightarrow> u32 \<Rightarrow> nat \<Rightarrow> ((nat \<Rightarrow> u8) \<times> int) \<times> 'e"
  env_memcpy_toio :: "'e \<Rightarrow> u32 \<Rightarrow> u8 list \<Rightarrow> int \<times> 'e"
  env_hw_reset :: "'e \<Rightarrow> int \<times> 'e"
  env_enable_func :: "'e \<Rightarrow> int \<times> 'e"
  env_disable_func :: "'e \<Rightarrow> int \<times> 'e"

text \<open>
  A kernel pointer is \<open>NULL\<close> or an offset into a buffer of the kernel heap. The world is
  the external state, the live \<^verbatim>\<open>kmalloc\<close> buffers, the next unused buffer name and the
  log.
\<close>

datatype kptr = NULL | Ptr nat nat

record 'e world =
  ext :: 'e
  kbufs :: "nat \<Rightarrow> u8 list option"
  knext :: nat
  trace :: "event list"

definition init_world :: "'e \<Rightarrow> 'e world" where
  "init_world e = \<lparr>ext = e, kbufs = (\<lambda>b. None), knext = 0, trace = []\<rparr>"

definition log :: "event \<Rightarrow> 'e world \<Rightarrow> 'e world" where
  "log ev w = w\<lparr>trace := trace w @ [ev]\<rparr>"

subsection \<open>Kernel services as the driver calls them\<close>

definition kmalloc :: "'e env \<Rightarrow> 'e world \<Rightarrow> nat \<Rightarrow> kptr \<times> 'e world" where
  "kmalloc env w n =
     (case env_kmalloc env (ext w) n of
        None \<Rightarrow> (NULL, log (Kmalloc n False) w)
      | Some junk \<Rightarrow>
          (Ptr (knext w) 0,
           log (Kmalloc n True)
             (w\<lparr>kbufs := (kbufs w)(knext w := Some (map junk [0..<n])),
                knext := Suc (knext w)\<rparr>)))"

definition kfree :: "'e world \<Rightarrow> kptr \<Rightarrow> 'e world" where
  "kfree w p =
     (case p of
        NULL \<Rightarrow> w
      | Ptr b off \<Rightarrow>
          (if off = 0 \<and> kbufs w b \<noteq> None
           then log (Kfree b) (w\<lparr>kbufs := (kbufs w)(b := None)\<rparr>)
           else log MemFault w))"

text \<open>\<^verbatim>\<open>*(u8 *)p = v\<close> and \<^verbatim>\<open>*(u8 *)p\<close>.\<close>

definition kstore :: "'e world \<Rightarrow> kptr \<Rightarrow> u8 \<Rightarrow> 'e world" where
  "kstore w p v =
     (case p of
        NULL \<Rightarrow> log MemFault w
      | Ptr b off \<Rightarrow>
          (case kbufs w b of
             None \<Rightarrow> log MemFault w
           | Some buf \<Rightarrow>
               if off < length buf
               then w\<lparr>kbufs := (kbufs w)(b := Some (buf[off := v]))\<rparr>
               else log MemFault w))"

definition kload :: "'e world \<Rightarrow> kptr \<Rightarrow> u8 \<times> 'e world" where
  "kload w p =
     (case p of
        NULL \<Rightarrow> (0, log MemFault w)
      | Ptr b off \<Rightarrow>
          (case kbufs w b of
             None \<Rightarrow> (0, log MemFault w)
           | Some buf \<Rightarrow>
               if off < length buf then (buf ! off, w) else (0, log MemFault w)))"

text \<open>The \<open>n\<close> bytes at \<open>p\<close>, and filling the \<open>n\<close> bytes at \<open>p\<close>.\<close>

definition kread :: "'e world \<Rightarrow> kptr \<Rightarrow> nat \<Rightarrow> u8 list \<times> 'e world" where
  "kread w p n =
     (case p of
        NULL \<Rightarrow> ([], log MemFault w)
      | Ptr b off \<Rightarrow>
          (case kbufs w b of
             None \<Rightarrow> ([], log MemFault w)
           | Some buf \<Rightarrow>
               if off + n \<le> length buf then (take n (drop off buf), w)
               else ([], log MemFault w)))"

definition kfill :: "'e world \<Rightarrow> kptr \<Rightarrow> nat \<Rightarrow> (nat \<Rightarrow> u8) \<Rightarrow> 'e world" where
  "kfill w p n f =
     (case p of
        NULL \<Rightarrow> log MemFault w
      | Ptr b off \<Rightarrow>
          (case kbufs w b of
             None \<Rightarrow> log MemFault w
           | Some buf \<Rightarrow>
               if off + n \<le> length buf
               then w\<lparr>kbufs := (kbufs w)(b :=
                      Some (take off buf @ map f [0..<n] @ drop (off + n) buf))\<rparr>
               else log MemFault w))"

text \<open>\<^verbatim>\<open>dst++\<close> on a \<^verbatim>\<open>void *\<close> (a GNU extension: the pointer moves by one byte).\<close>

fun ptr_inc :: "kptr \<Rightarrow> kptr" where
  "ptr_inc NULL = NULL"
| "ptr_inc (Ptr b off) = Ptr b (Suc off)"

definition sdio_claim_host :: "'e world \<Rightarrow> 'e world" where
  "sdio_claim_host w = log Claim w"

definition sdio_release_host :: "'e world \<Rightarrow> 'e world" where
  "sdio_release_host w = log Release w"

definition gpiod_direction_output :: "'e world \<Rightarrow> bool \<Rightarrow> 'e world" where
  "gpiod_direction_output w v = log (Gpio v) w"

definition msleep :: "'e world \<Rightarrow> nat \<Rightarrow> 'e world" where
  "msleep w ms = log (Msleep ms) w"

definition dev_warn :: "'e world \<Rightarrow> 'e world" where
  "dev_warn w = log DevWarn w"

definition dev_err :: "'e world \<Rightarrow> 'e world" where
  "dev_err w = log DevErr w"

definition mmc_hw_reset :: "'e env \<Rightarrow> 'e world \<Rightarrow> int \<times> 'e world" where
  "mmc_hw_reset env w =
     (let (r, e) = env_hw_reset env (ext w) in (r, log (HwReset r) (w\<lparr>ext := e\<rparr>)))"

definition sdio_enable_func :: "'e env \<Rightarrow> 'e world \<Rightarrow> int \<times> 'e world" where
  "sdio_enable_func env w =
     (let (r, e) = env_enable_func env (ext w) in (r, log (EnableFunc r) (w\<lparr>ext := e\<rparr>)))"

definition sdio_disable_func :: "'e env \<Rightarrow> 'e world \<Rightarrow> int \<times> 'e world" where
  "sdio_disable_func env w =
     (let (r, e) = env_disable_func env (ext w) in (r, log (DisableFunc r) (w\<lparr>ext := e\<rparr>)))"

definition sdio_readb :: "'e env \<Rightarrow> 'e world \<Rightarrow> u32 \<Rightarrow> (u8 \<times> int) \<times> 'e world" where
  "sdio_readb env w addr =
     (let ((v, err), e) = env_readb env (ext w) addr
      in ((v, err), log (ReadB addr v err) (w\<lparr>ext := e\<rparr>)))"

definition sdio_writeb :: "'e env \<Rightarrow> 'e world \<Rightarrow> u8 \<Rightarrow> u32 \<Rightarrow> int \<times> 'e world" where
  "sdio_writeb env w v addr =
     (let (err, e) = env_writeb env (ext w) v addr
      in (err, log (WriteB v addr err) (w\<lparr>ext := e\<rparr>)))"

definition sdio_memcpy_fromio ::
  "'e env \<Rightarrow> 'e world \<Rightarrow> kptr \<Rightarrow> u32 \<Rightarrow> nat \<Rightarrow> int \<times> 'e world" where
  "sdio_memcpy_fromio env w dst addr n =
     (let ((f, r), e) = env_memcpy_fromio env (ext w) addr n
      in (r, kfill (log (MemcpyFromio addr n r) (w\<lparr>ext := e\<rparr>)) dst n f))"

definition sdio_memcpy_toio ::
  "'e env \<Rightarrow> 'e world \<Rightarrow> u32 \<Rightarrow> kptr \<Rightarrow> nat \<Rightarrow> int \<times> 'e world" where
  "sdio_memcpy_toio env w addr src n =
     (let (bs, w1) = kread w src n;
          (r, e) = env_memcpy_toio env (ext w1) addr bs
      in (r, log (MemcpyToio addr bs r) (w1\<lparr>ext := e\<rparr>)))"

text \<open>\<^verbatim>\<open>copy_from_user(&r, argp, sizeof(r))\<close>: the request record, or \<open>None\<close> on a fault.\<close>

definition copy_req_from_user ::
  "'e env \<Rightarrow> 'e world \<Rightarrow> u64 \<Rightarrow> besdbg_data option \<times> 'e world" where
  "copy_req_from_user env w argp =
     (case env_copy_req env (ext w) argp of
        None \<Rightarrow> (None, log (CopyReq argp False) w)
      | Some r \<Rightarrow> (Some r, log (CopyReq argp True) w))"

text \<open>\<^verbatim>\<open>copy_from_user(dst, src, n)\<close> and \<^verbatim>\<open>copy_to_user(dst, src, n)\<close>: \<open>True\<close> is a
  nonzero return.\<close>

definition copy_from_user ::
  "'e env \<Rightarrow> 'e world \<Rightarrow> kptr \<Rightarrow> u64 \<Rightarrow> nat \<Rightarrow> bool \<times> 'e world" where
  "copy_from_user env w dst src n =
     (case env_copy_from_user env (ext w) src n of
        None \<Rightarrow> (True, log (CopyFromUser src n False) w)
      | Some f \<Rightarrow> (False, kfill (log (CopyFromUser src n True) w) dst n f))"

definition copy_to_user ::
  "'e env \<Rightarrow> 'e world \<Rightarrow> u64 \<Rightarrow> kptr \<Rightarrow> nat \<Rightarrow> bool \<times> 'e world" where
  "copy_to_user env w dst src n =
     (let (bs, w1) = kread w src n;
          (left, e) = env_copy_to_user env (ext w1) dst bs
      in (left \<noteq> 0, log (CopyToUser dst bs (left = 0)) (w1\<lparr>ext := e\<rparr>)))"

subsection \<open>The register codec\<close>

text \<open>
  \<^verbatim>\<open>while (count && !ret) { *(u8 *)dst = sdio_readb(self->func, reg, &ret);
  dst++; reg++; count--; }\<close>. The loop runs on a positive \<open>count\<close> only (the check before
  it), so the counter is a natural number here.
\<close>

fun reg_read_loop ::
  "'e env \<Rightarrow> 'e world \<Rightarrow> u32 \<Rightarrow> kptr \<Rightarrow> nat \<Rightarrow> int \<Rightarrow> int \<times> 'e world" where
  "reg_read_loop env w rg dst 0 ret = (ret, w)"
| "reg_read_loop env w rg dst (Suc count) ret =
     (if ret \<noteq> 0 then (ret, w)
      else
        (let ((v, err), w1) = sdio_readb env w rg;
             w2 = kstore w1 dst v
         in reg_read_loop env w2 (rg + 1) (ptr_inc dst) count err))"

definition bes2600_sdio_reg_read ::
  "'e env \<Rightarrow> 'e world \<Rightarrow> u32 \<Rightarrow> kptr \<Rightarrow> int \<Rightarrow> int \<times> 'e world" where
  "bes2600_sdio_reg_read env w rg dst count =
     (if count \<le> 0 \<or> dst = NULL then (- EINVAL, w)
      else reg_read_loop env w rg dst (nat count) 0)"

text \<open>
  \<^verbatim>\<open>while (count && !ret) { sdio_writeb(self->func, *(u8 *)src, reg, &ret);
  src++; reg++; count--; }\<close>
\<close>

fun reg_write_loop ::
  "'e env \<Rightarrow> 'e world \<Rightarrow> u32 \<Rightarrow> kptr \<Rightarrow> nat \<Rightarrow> int \<Rightarrow> int \<times> 'e world" where
  "reg_write_loop env w rg src 0 ret = (ret, w)"
| "reg_write_loop env w rg src (Suc count) ret =
     (if ret \<noteq> 0 then (ret, w)
      else
        (let (v, w1) = kload w src;
             (err, w2) = sdio_writeb env w1 v rg
         in reg_write_loop env w2 (rg + 1) (ptr_inc src) count err))"

definition bes2600_sdio_reg_write ::
  "'e env \<Rightarrow> 'e world \<Rightarrow> u32 \<Rightarrow> kptr \<Rightarrow> int \<Rightarrow> int \<times> 'e world" where
  "bes2600_sdio_reg_write env w rg src count =
     (if count \<le> 0 \<or> src = NULL then (- EINVAL, w)
      else reg_write_loop env w rg src (nat count) 0)"

subsection \<open>The request dispatcher \<^verbatim>\<open>besdbg_ioctl\<close>, one definition per \<^verbatim>\<open>case\<close>\<close>

definition ioctl_reset :: "'e env \<Rightarrow> 'e world \<Rightarrow> int \<times> 'e world" where
  "ioctl_reset env w =
     (let w1 = gpiod_direction_output w False;
          w2 = sdio_claim_host w1;
          (ret, w3) = mmc_hw_reset env w2;
          w4 = (if ret \<noteq> 0 then dev_warn w3 else w3);
          w5 = gpiod_direction_output w4 True;
          w6 = msleep w5 10;
          (ret, w7) = sdio_enable_func env w6
      in if ret \<noteq> 0 then (ret, sdio_release_host w7)
         else (0, sdio_release_host w7))"

text \<open>
  The second argument of the codec is an \<^verbatim>\<open>int\<close>: \<^verbatim>\<open>r.len\<close>, an unsigned 32-bit value, is
  converted on the call (\<open>sint\<close>).
\<close>

definition ioctl_reg_read :: "'e env \<Rightarrow> 'e world \<Rightarrow> u64 \<Rightarrow> int \<times> 'e world" where
  "ioctl_reg_read env w argp =
     (case copy_req_from_user env w argp of
        (None, w1) \<Rightarrow> (- EFAULT, w1)
      | (Some r, w1) \<Rightarrow>
          if len r > 32 \<or> len r = 0 \<or> data r = 0 then (- EINVAL, w1)
          else
            (case kmalloc env w1 (unat (len r)) of
               (NULL, w2) \<Rightarrow> (- ENOMEM, w2)
             | (Ptr b off, w2) \<Rightarrow>
                 (let w3 = sdio_claim_host w2;
                      (ret, w4) = bes2600_sdio_reg_read env w3 (reg r) (Ptr b off) (sint (len r));
                      w5 = sdio_release_host w4
                  in if ret \<noteq> 0 then (ret, kfree (dev_err w5) (Ptr b off))
                     else
                       (case copy_to_user env w5 (data r) (Ptr b off) (unat (len r)) of
                          (True, w6) \<Rightarrow> (- EFAULT, kfree w6 (Ptr b off))
                        | (False, w6) \<Rightarrow> (0, kfree w6 (Ptr b off))))))"

definition ioctl_reg_write :: "'e env \<Rightarrow> 'e world \<Rightarrow> u64 \<Rightarrow> int \<times> 'e world" where
  "ioctl_reg_write env w argp =
     (case copy_req_from_user env w argp of
        (None, w1) \<Rightarrow> (- EFAULT, w1)
      | (Some r, w1) \<Rightarrow>
          if len r > 64 * 1024 \<or> len r = 0 \<or> data r = 0 then (- EINVAL, w1)
          else
            (case kmalloc env w1 (unat (len r)) of
               (NULL, w2) \<Rightarrow> (- ENOMEM, w2)
             | (Ptr b off, w2) \<Rightarrow>
                 (case copy_from_user env w2 (Ptr b off) (data r) (unat (len r)) of
                    (True, w3) \<Rightarrow> (- EFAULT, w3)
                  | (False, w3) \<Rightarrow>
                      (let w4 = sdio_claim_host w3;
                           (ret, w5) = bes2600_sdio_reg_write env w4 (reg r) (Ptr b off) (sint (len r));
                           w6 = sdio_release_host w5;
                           w7 = kfree w6 (Ptr b off)
                       in if ret \<noteq> 0 then (ret, dev_err w7) else (0, w7)))))"

definition ioctl_mem_read :: "'e env \<Rightarrow> 'e world \<Rightarrow> u64 \<Rightarrow> int \<times> 'e world" where
  "ioctl_mem_read env w argp =
     (case copy_req_from_user env w argp of
        (None, w1) \<Rightarrow> (- EFAULT, w1)
      | (Some r, w1) \<Rightarrow>
          if len r > 1024 * 64 \<or> len r = 0 \<or> data r = 0 then (- EINVAL, w1)
          else
            (case kmalloc env w1 (unat (len r)) of
               (NULL, w2) \<Rightarrow> (- ENOMEM, w2)
             | (Ptr b off, w2) \<Rightarrow>
                 (let w3 = sdio_claim_host w2;
                      (ret, w4) = sdio_memcpy_fromio env w3 (Ptr b off) (reg r) (unat (len r));
                      w5 = sdio_release_host w4
                  in if ret \<noteq> 0 then (ret, kfree (dev_err w5) (Ptr b off))
                     else
                       (case copy_to_user env w5 (data r) (Ptr b off) (unat (len r)) of
                          (True, w6) \<Rightarrow> (- EFAULT, kfree w6 (Ptr b off))
                        | (False, w6) \<Rightarrow> (0, kfree w6 (Ptr b off))))))"

definition ioctl_mem_write :: "'e env \<Rightarrow> 'e world \<Rightarrow> u64 \<Rightarrow> int \<times> 'e world" where
  "ioctl_mem_write env w argp =
     (case copy_req_from_user env w argp of
        (None, w1) \<Rightarrow> (- EFAULT, w1)
      | (Some r, w1) \<Rightarrow>
          if len r > 64 * 1024 \<or> len r = 0 \<or> data r = 0 then (- EINVAL, w1)
          else
            (case kmalloc env w1 (unat (len r)) of
               (NULL, w2) \<Rightarrow> (- ENOMEM, w2)
             | (Ptr b off, w2) \<Rightarrow>
                 (case copy_from_user env w2 (Ptr b off) (data r) (unat (len r)) of
                    (True, w3) \<Rightarrow> (- EFAULT, w3)
                  | (False, w3) \<Rightarrow>
                      (let w4 = sdio_claim_host w3;
                           (ret, w5) = sdio_memcpy_toio env w4 (reg r) (Ptr b off) (unat (len r));
                           w6 = sdio_release_host w5;
                           w7 = kfree w6 (Ptr b off)
                       in if ret \<noteq> 0 then (ret, dev_err w7) else (0, w7)))))"

definition besdbg_ioctl :: "'e env \<Rightarrow> 'e world \<Rightarrow> u32 \<Rightarrow> u64 \<Rightarrow> int \<times> 'e world" where
  "besdbg_ioctl env w cmd arg =
     (if cmd = BESDBG_IOCTL_RESET then ioctl_reset env w
      else if cmd = BESDBG_IOCTL_REG_READ then ioctl_reg_read env w arg
      else if cmd = BESDBG_IOCTL_REG_WRITE then ioctl_reg_write env w arg
      else if cmd = BESDBG_IOCTL_MEM_READ then ioctl_mem_read env w arg
      else if cmd = BESDBG_IOCTL_MEM_WRITE then ioctl_mem_write env w arg
      else (- EINVAL, w))"

subsection \<open>Detaching: \<^verbatim>\<open>besdbg_disconnect\<close>\<close>

text \<open>
  The driver data of the bus function (\<^verbatim>\<open>sdio_get_drvdata\<close>, \<^verbatim>\<open>sdio_set_drvdata\<close>) is the
  first component of the state: \<open>None\<close> is the null pointer.
\<close>

definition besdbg_disconnect ::
  "'e env \<Rightarrow> besdbg_priv option \<times> 'e world \<Rightarrow> besdbg_priv option \<times> 'e world" where
  "besdbg_disconnect env s =
     (case s of
        (None, w) \<Rightarrow> (None, w)
      | (Some self, w) \<Rightarrow>
          (let w1 = log CdevDel w;
               w2 = log (UnregisterChrdev (major self)) w1;
               w3 = log (DeviceDestroy (major self)) w2;
               w4 = sdio_claim_host w3;
               (r, w5) = sdio_disable_func env w4;
               w6 = sdio_release_host w5
           in (None, gpiod_direction_output w6 False)))"

subsection \<open>Reading the log\<close>

text \<open>
  The events of \<open>n\<close> single-byte reads (writes) at consecutive addresses, from the byte
  and error of each.
\<close>

fun readb_events :: "u32 \<Rightarrow> (u8 \<times> int) list \<Rightarrow> event list" where
  "readb_events rg [] = []"
| "readb_events rg ((v, err) # rs) = ReadB rg v err # readb_events (rg + 1) rs"

fun writeb_events :: "u32 \<Rightarrow> (u8 \<times> int) list \<Rightarrow> event list" where
  "writeb_events rg [] = []"
| "writeb_events rg ((v, err) # rs) = WriteB v rg err # writeb_events (rg + 1) rs"

text \<open>The calls that use the SDIO host: transfers, reset, enabling and disabling.\<close>

fun on_bus :: "event \<Rightarrow> bool" where
  "on_bus (HwReset r) = True"
| "on_bus (EnableFunc r) = True"
| "on_bus (DisableFunc r) = True"
| "on_bus (ReadB a v err) = True"
| "on_bus (WriteB v a err) = True"
| "on_bus (MemcpyFromio a n r) = True"
| "on_bus (MemcpyToio a bs r) = True"
| "on_bus _ = False"

text \<open>
  The discipline of the bus ownership guard, checked along a log: \<open>held\<close> says whether
  the host is claimed. The result is \<open>None\<close> when the host is claimed while already
  claimed, released while not claimed, or used while not claimed; otherwise it is the
  state of the guard at the end.
\<close>

fun guard_run :: "bool \<Rightarrow> event list \<Rightarrow> bool option" where
  "guard_run held [] = Some held"
| "guard_run held (ev # es) =
     (if ev = Claim then (if held then None else guard_run True es)
      else if ev = Release then (if held then guard_run False es else None)
      else if on_bus ev \<and> \<not> held then None
      else guard_run held es)"

text \<open>The single-byte reads of a log (address, byte, error), in order.\<close>

fun bus_reads :: "event list \<Rightarrow> (u32 \<times> u8 \<times> int) list" where
  "bus_reads [] = []"
| "bus_reads (ReadB a v err # es) = (a, v, err) # bus_reads es"
| "bus_reads (ev # es) = bus_reads es"

text \<open>The error of every single-byte transfer (read or write) of a log, in order.\<close>

fun byte_status :: "event list \<Rightarrow> int list" where
  "byte_status [] = []"
| "byte_status (ReadB a v err # es) = err # byte_status es"
| "byte_status (WriteB v a err # es) = err # byte_status es"
| "byte_status (ev # es) = byte_status es"

text \<open>What was copied to the client: user address, bytes, and whether the copy worked.\<close>

fun copied_out :: "event list \<Rightarrow> (u64 \<times> u8 list \<times> bool) list" where
  "copied_out [] = []"
| "copied_out (CopyToUser p bs ok # es) = (p, bs, ok) # copied_out es"
| "copied_out (ev # es) = copied_out es"

fun is_transfer :: "event \<Rightarrow> bool" where
  "is_transfer (ReadB a v err) = True"
| "is_transfer (WriteB v a err) = True"
| "is_transfer (MemcpyFromio a n r) = True"
| "is_transfer (MemcpyToio a bs r) = True"
| "is_transfer _ = False"

fun is_kfree :: "event \<Rightarrow> bool" where
  "is_kfree (Kfree b) = True"
| "is_kfree _ = False"

fun is_disable :: "event \<Rightarrow> bool" where
  "is_disable (DisableFunc r) = True"
| "is_disable _ = False"

text \<open>The length bound of a data-carrying request, as the specification gives it.\<close>

definition len_bound :: "u32 \<Rightarrow> u32" where
  "len_bound cmd = (if cmd = BESDBG_IOCTL_REG_READ then 32 else 64 * 1024)"

subsection \<open>The register codec as the specification describes it\<close>

text \<open>
  Section 4.1 of the specification says that the codec does not check \<open>count > 0\<close> and
  the buffer pointer: the codec of the specification is the loop alone. These two
  definitions follow the specification, not the source, and are compared with the source
  below.
\<close>

definition spec_reg_read ::
  "'e env \<Rightarrow> 'e world \<Rightarrow> u32 \<Rightarrow> kptr \<Rightarrow> int \<Rightarrow> int \<times> 'e world" where
  "spec_reg_read env w rg dst count = reg_read_loop env w rg dst (nat count) 0"

definition spec_reg_write ::
  "'e env \<Rightarrow> 'e world \<Rightarrow> u32 \<Rightarrow> kptr \<Rightarrow> int \<Rightarrow> int \<times> 'e world" where
  "spec_reg_write env w rg src count = reg_write_loop env w rg src (nat count) 0"

subsection \<open>Requests running at once\<close>

text \<open>
  A schedule interleaves the events of several requests that run at the same time, each
  event tagged with the number of its request. \<^verbatim>\<open>sdio_claim_host\<close> is a lock:
  \<open>host_ok\<close> says that a schedule respects it (a claim is granted only when nobody
  holds the host, and only the holder releases), starting with the holder \<open>h\<close>.
\<close>

definition thread_events :: "nat \<Rightarrow> (nat \<times> event) list \<Rightarrow> event list" where
  "thread_events t s = map snd (filter (\<lambda>x. fst x = t) s)"

fun host_ok :: "nat option \<Rightarrow> (nat \<times> event) list \<Rightarrow> bool" where
  "host_ok h [] = True"
| "host_ok h ((t, ev) # s) =
     (if ev = Claim then h = None \<and> host_ok (Some t) s
      else if ev = Release then h = Some t \<and> host_ok None s
      else host_ok h s)"

fun holder_after :: "nat option \<Rightarrow> (nat \<times> event) list \<Rightarrow> nat option" where
  "holder_after h [] = h"
| "holder_after h ((t, ev) # s) =
     holder_after (if ev = Claim then Some t else if ev = Release then None else h) s"

subsection \<open>A test environment\<close>

text \<open>
  A concrete environment for evaluating the driver. The external state counts the bus
  calls made so far; the call number \<open>fail_at\<close> (counted from 1) fails with \<open>-5\<close>
  (\<^verbatim>\<open>-EIO\<close>), and 0 means that no call fails. The registers \<open>0x10\<close> to \<open>0x13\<close> hold
  \<open>AA BB CC DD\<close>. The request record at any user address other than 0 is \<open>rq\<close>; the
  user address \<open>0xBAD\<close> is not accessible.
\<close>

definition mock_regs :: "u32 \<Rightarrow> u8" where
  "mock_regs a = (if a = 0x10 then 0xAA else if a = 0x11 then 0xBB
                  else if a = 0x12 then 0xCC else if a = 0x13 then 0xDD else 0)"

definition mock_status :: "nat \<Rightarrow> nat \<Rightarrow> int" where
  "mock_status fail_at e = (if Suc e = fail_at then - 5 else 0)"

definition mock_payload :: "nat \<Rightarrow> u8" where
  "mock_payload i = of_nat i + 1"

definition mock_junk :: "nat \<Rightarrow> u8" where
  "mock_junk i = 0"

definition mock_copy_req :: "besdbg_data \<Rightarrow> nat \<Rightarrow> u64 \<Rightarrow> besdbg_data option" where
  "mock_copy_req rq e p = (if p = 0 then None else Some rq)"

definition mock_copy_from_user :: "nat \<Rightarrow> u64 \<Rightarrow> nat \<Rightarrow> (nat \<Rightarrow> u8) option" where
  "mock_copy_from_user e p n = (if p = 0xBAD then None else Some mock_payload)"

definition mock_copy_to_user :: "nat \<Rightarrow> u64 \<Rightarrow> u8 list \<Rightarrow> nat \<times> nat" where
  "mock_copy_to_user e p bs = (if p = 0xBAD then length bs else 0, e)"

definition mock_kmalloc :: "nat \<Rightarrow> nat \<Rightarrow> (nat \<Rightarrow> u8) option" where
  "mock_kmalloc e n = Some mock_junk"

definition mock_readb :: "nat \<Rightarrow> nat \<Rightarrow> u32 \<Rightarrow> (u8 \<times> int) \<times> nat" where
  "mock_readb fail_at e a = ((mock_regs a, mock_status fail_at e), Suc e)"

definition mock_writeb :: "nat \<Rightarrow> nat \<Rightarrow> u8 \<Rightarrow> u32 \<Rightarrow> int \<times> nat" where
  "mock_writeb fail_at e v a = (mock_status fail_at e, Suc e)"

definition mock_memcpy_fromio ::
  "nat \<Rightarrow> nat \<Rightarrow> u32 \<Rightarrow> nat \<Rightarrow> ((nat \<Rightarrow> u8) \<times> int) \<times> nat" where
  "mock_memcpy_fromio fail_at e a n = ((mock_payload, mock_status fail_at e), Suc e)"

definition mock_memcpy_toio :: "nat \<Rightarrow> nat \<Rightarrow> u32 \<Rightarrow> u8 list \<Rightarrow> int \<times> nat" where
  "mock_memcpy_toio fail_at e a bs = (mock_status fail_at e, Suc e)"

definition mock_call :: "nat \<Rightarrow> nat \<Rightarrow> int \<times> nat" where
  "mock_call fail_at e = (mock_status fail_at e, Suc e)"

definition mock_env :: "besdbg_data \<Rightarrow> nat \<Rightarrow> nat env" where
  "mock_env rq fail_at =
     \<lparr>env_copy_req = mock_copy_req rq,
      env_copy_from_user = mock_copy_from_user,
      env_copy_to_user = mock_copy_to_user,
      env_kmalloc = mock_kmalloc,
      env_readb = mock_readb fail_at,
      env_writeb = mock_writeb fail_at,
      env_memcpy_fromio = mock_memcpy_fromio fail_at,
      env_memcpy_toio = mock_memcpy_toio fail_at,
      env_hw_reset = mock_call fail_at,
      env_enable_func = mock_call fail_at,
      env_disable_func = mock_call fail_at\<rparr>"

text \<open>Requests used in the examples.\<close>

definition read4 :: besdbg_data where
  "read4 = \<lparr>reg = 0x10, len = 4, data = 0x2000\<rparr>"

definition read2 :: besdbg_data where
  "read2 = \<lparr>reg = 0x10, len = 2, data = 0x2000\<rparr>"

definition read1 :: besdbg_data where
  "read1 = \<lparr>reg = 0x10, len = 1, data = 0x2000\<rparr>"

definition block8 :: besdbg_data where
  "block8 = \<lparr>reg = 0x1000, len = 8, data = 0x2000\<rparr>"

definition too_long :: besdbg_data where
  "too_long = \<lparr>reg = 0x1000, len = 70000, data = 0x2000\<rparr>"

definition bad_payload :: besdbg_data where
  "bad_payload = \<lparr>reg = 0x10, len = 4, data = 0xBAD\<rparr>"

text \<open>
  A schedule of a reset (request 0) and a one-byte register read (request 1): the read
  is validated and its buffer allocated while the reset runs, and it gets the host after
  the reset has released it. The requests of any other number do nothing (an unknown
  request code).
\<close>

definition demo_s1 :: "(nat \<times> event) list" where
  "demo_s1 = [(0, Gpio False), (1, CopyReq 0x1000 True), (0, Claim)]"

definition demo_s2 :: "(nat \<times> event) list" where
  "demo_s2 = [(1, Kmalloc 1 True), (0, Gpio True), (0, Msleep 10)]"

definition demo_s3 :: "(nat \<times> event) list" where
  "demo_s3 = [(0, Release), (1, Claim), (1, ReadB 0x10 0xAA 0), (1, Release),
              (1, CopyToUser 0x2000 [0xAA] True), (1, Kfree 0)]"

definition demo_schedule :: "(nat \<times> event) list" where
  "demo_schedule = demo_s1 @ (0, HwReset 0) # demo_s2 @ (0, EnableFunc 0) # demo_s3"

definition demo_cmds :: "nat \<Rightarrow> u32" where
  "demo_cmds t = (if t = 0 then BESDBG_IOCTL_REG_READ else 0)"

text \<open>
  A schedule of a reset (request 0) and a register read of length 0 (request 1): the
  read starts after the hardware reset and is over before the reset begins to sleep.
\<close>

definition len0 :: besdbg_data where
  "len0 = \<lparr>reg = 0x10, len = 0, data = 0x2000\<rparr>"

definition early_s1 :: "(nat \<times> event) list" where
  "early_s1 = [(0, Gpio False), (0, Claim)]"

definition early_s2 :: "(nat \<times> event) list" where
  "early_s2 = [(0, Gpio True), (1, CopyReq 0x1000 True), (0, Msleep 10)]"

definition early_s3 :: "(nat \<times> event) list" where
  "early_s3 = [(0, Release)]"

definition early_schedule :: "(nat \<times> event) list" where
  "early_schedule = early_s1 @ (0, HwReset 0) # early_s2 @ (0, EnableFunc 0) # early_s3"

section \<open>Properties\<close>

subsection \<open>Auxiliary facts\<close>

lemma log_simps [simp]:
  "trace (log ev w) = trace w @ [ev]"
  "ext (log ev w) = ext w"
  "kbufs (log ev w) = kbufs w"
  "knext (log ev w) = knext w"
  by (simp_all add: log_def)

lemma kstore_live:
  "kbufs w b = Some buf \<Longrightarrow> off < length buf \<Longrightarrow>
   kstore w (Ptr b off) v = w\<lparr>kbufs := (kbufs w)(b := Some (buf[off := v]))\<rparr>"
  by (simp add: kstore_def)

lemma sdio_readb_world:
  "sdio_readb env w a = ((v, err), w1) \<Longrightarrow>
   trace w1 = trace w @ [ReadB a v err] \<and> kbufs w1 = kbufs w \<and> knext w1 = knext w"
  by (auto simp: sdio_readb_def split: prod.splits)

lemma reg_read_loop_run:
  "reg_read_loop env w rg (Ptr b off) n ret0 = (ret, w') \<Longrightarrow>
   kbufs w b = Some buf \<Longrightarrow> off + n \<le> length buf \<Longrightarrow>
   \<exists>rs. length rs \<le> n
      \<and> trace w' = trace w @ readb_events rg rs
      \<and> (\<forall>x \<in> set (butlast rs). snd x = 0)
      \<and> ret = (if rs = [] then ret0 else snd (last rs))
      \<and> (ret = 0 \<longrightarrow> ret0 = 0 \<and> length rs = n)
      \<and> (ret0 \<noteq> 0 \<longrightarrow> rs = [])
      \<and> kbufs w' = (kbufs w)(b := Some (take off buf @ map fst rs @ drop (off + length rs) buf))
      \<and> knext w' = knext w"
proof (induction n arbitrary: w rg off buf ret0)
  case 0
  then show ?case by (intro exI [of _ "[]"]) auto
next
  case (Suc n)
  show ?case
  proof (cases "ret0 = 0")
    case False
    with Suc.prems show ?thesis by (intro exI [of _ "[]"]) auto
  next
    case True
    obtain v err w1 where rd: "sdio_readb env w rg = ((v, err), w1)"
      by (metis prod.exhaust)
    note w1 = sdio_readb_world [OF rd]
    have live1: "kbufs w1 b = Some buf" using w1 Suc.prems by simp
    have offlt: "off < length buf" using Suc.prems by simp
    let ?w2 = "kstore w1 (Ptr b off) v"
    have w2: "?w2 = w1\<lparr>kbufs := (kbufs w1)(b := Some (buf[off := v]))\<rparr>"
      by (rule kstore_live [OF live1 offlt])
    have step: "reg_read_loop env ?w2 (rg + 1) (Ptr b (Suc off)) n err = (ret, w')"
      using Suc.prems(1) True rd by simp
    have live2: "kbufs ?w2 b = Some (buf[off := v])" by (simp add: w2)
    have bound2: "Suc off + n \<le> length (buf[off := v])" using Suc.prems by simp
    from Suc.IH [OF step live2 bound2] obtain rs where rs:
      "length rs \<le> n"
      "trace w' = trace ?w2 @ readb_events (rg + 1) rs"
      "\<forall>x \<in> set (butlast rs). snd x = 0"
      "ret = (if rs = [] then err else snd (last rs))"
      "ret = 0 \<longrightarrow> err = 0 \<and> length rs = n"
      "err \<noteq> 0 \<longrightarrow> rs = []"
      "kbufs w' = (kbufs ?w2)(b := Some (take (Suc off) (buf[off := v]) @ map fst rs
                     @ drop (Suc off + length rs) (buf[off := v])))"
      "knext w' = knext ?w2"
      by blast
    have tk: "take (Suc off) (buf[off := v]) = take off buf @ [v]"
      using offlt by (simp add: take_Suc_conv_app_nth)
    have dr: "drop (Suc off + length rs) (buf[off := v]) = drop (off + length ((v, err) # rs)) buf"
      by simp
    show ?thesis
    proof (intro exI [of _ "(v, err) # rs"] conjI)
      show "length ((v, err) # rs) \<le> Suc n" using rs(1) by simp
      show "trace w' = trace w @ readb_events rg ((v, err) # rs)"
        using rs(2) w1 by (simp add: w2)
      show "\<forall>x \<in> set (butlast ((v, err) # rs)). snd x = 0"
        using rs(3) rs(6) by auto
      show "ret = (if (v, err) # rs = [] then ret0 else snd (last ((v, err) # rs)))"
        using rs(4) by simp
      show "ret = 0 \<longrightarrow> ret0 = 0 \<and> length ((v, err) # rs) = Suc n"
        using rs(5) True by simp
      show "ret0 \<noteq> 0 \<longrightarrow> (v, err) # rs = []" using True by simp
      show "kbufs w' = (kbufs w)(b := Some (take off buf @ map fst ((v, err) # rs)
                 @ drop (off + length ((v, err) # rs)) buf))"
        using rs(7) w1 by (simp add: w2 tk)
      show "knext w' = knext w" using rs(8) w1 by (simp add: w2)
    qed
  qed
qed

lemma sint_small_len:
  fixes l :: u32
  assumes "l \<le> 65536"
  shows "sint l = int (unat l)"
proof -
  have "uint l \<le> 65536" using assms by (simp add: word_le_def)
  then have b: "uint l < 2 ^ 31" by simp
  have a: "- (2 ^ 31) \<le> uint l" by (rule order_trans [OF _ uint_ge_0]) simp
  from a b have "signed_take_bit 31 (uint l) = uint l"
    by (rule signed_take_bit_int_eq_self)
  then show ?thesis by (simp add: sint_uint)
qed

lemma le32_le65536: "\<not> (l::u32) > 32 \<Longrightarrow> l \<le> 65536"
  by (simp add: word_le_def word_less_def not_less)

lemma ioctl_codes_distinct:
  "BESDBG_IOCTL_RESET \<noteq> BESDBG_IOCTL_REG_READ"
  "BESDBG_IOCTL_RESET \<noteq> BESDBG_IOCTL_REG_WRITE"
  "BESDBG_IOCTL_RESET \<noteq> BESDBG_IOCTL_MEM_READ"
  "BESDBG_IOCTL_RESET \<noteq> BESDBG_IOCTL_MEM_WRITE"
  "BESDBG_IOCTL_REG_READ \<noteq> BESDBG_IOCTL_REG_WRITE"
  "BESDBG_IOCTL_REG_READ \<noteq> BESDBG_IOCTL_MEM_READ"
  "BESDBG_IOCTL_REG_READ \<noteq> BESDBG_IOCTL_MEM_WRITE"
  "BESDBG_IOCTL_REG_WRITE \<noteq> BESDBG_IOCTL_MEM_READ"
  "BESDBG_IOCTL_REG_WRITE \<noteq> BESDBG_IOCTL_MEM_WRITE"
  "BESDBG_IOCTL_MEM_READ \<noteq> BESDBG_IOCTL_MEM_WRITE"
  by (simp_all add: BESDBG_IOCTL_RESET_def BESDBG_IOCTL_REG_READ_def
      BESDBG_IOCTL_REG_WRITE_def BESDBG_IOCTL_MEM_READ_def BESDBG_IOCTL_MEM_WRITE_def
      IOC_def BESDBG_MAGIC_def)

lemma kload_live:
  "kbufs w b = Some buf \<Longrightarrow> off < length buf \<Longrightarrow> kload w (Ptr b off) = (buf ! off, w)"
  by (simp add: kload_def)

lemma sdio_writeb_world:
  "sdio_writeb env w v a = (err, w1) \<Longrightarrow>
   trace w1 = trace w @ [WriteB v a err] \<and> kbufs w1 = kbufs w \<and> knext w1 = knext w"
  by (auto simp: sdio_writeb_def split: prod.splits)

lemma reg_write_loop_run:
  "reg_write_loop env w rg (Ptr b off) n ret0 = (ret, w') \<Longrightarrow>
   kbufs w b = Some buf \<Longrightarrow> off + n \<le> length buf \<Longrightarrow>
   \<exists>rs. length rs \<le> n
      \<and> trace w' = trace w @ writeb_events rg rs
      \<and> map fst rs = take (length rs) (drop off buf)
      \<and> (\<forall>x \<in> set (butlast rs). snd x = 0)
      \<and> ret = (if rs = [] then ret0 else snd (last rs))
      \<and> (ret = 0 \<longrightarrow> ret0 = 0 \<and> length rs = n)
      \<and> (ret0 \<noteq> 0 \<longrightarrow> rs = [])
      \<and> kbufs w' = kbufs w
      \<and> knext w' = knext w"
proof (induction n arbitrary: w rg off ret0)
  case 0
  then show ?case by (intro exI [of _ "[]"]) auto
next
  case (Suc n)
  show ?case
  proof (cases "ret0 = 0")
    case False
    with Suc.prems show ?thesis by (intro exI [of _ "[]"]) auto
  next
    case True
    have offlt: "off < length buf" using Suc.prems by simp
    have ld: "kload w (Ptr b off) = (buf ! off, w)"
      by (rule kload_live [OF Suc.prems(2) offlt])
    obtain err w2 where wr: "sdio_writeb env w (buf ! off) rg = (err, w2)"
      by (metis prod.exhaust)
    note w2 = sdio_writeb_world [OF wr]
    have step: "reg_write_loop env w2 (rg + 1) (Ptr b (Suc off)) n err = (ret, w')"
      using Suc.prems(1) True ld wr by simp
    have live2: "kbufs w2 b = Some buf" using w2 Suc.prems by simp
    have bound2: "Suc off + n \<le> length buf" using Suc.prems by simp
    from Suc.IH [OF step live2 bound2] obtain rs where rs:
      "length rs \<le> n"
      "trace w' = trace w2 @ writeb_events (rg + 1) rs"
      "map fst rs = take (length rs) (drop (Suc off) buf)"
      "\<forall>x \<in> set (butlast rs). snd x = 0"
      "ret = (if rs = [] then err else snd (last rs))"
      "ret = 0 \<longrightarrow> err = 0 \<and> length rs = n"
      "err \<noteq> 0 \<longrightarrow> rs = []"
      "kbufs w' = kbufs w2"
      "knext w' = knext w2"
      by blast
    have dr: "drop off buf = buf ! off # drop (Suc off) buf"
      using offlt by (simp add: Cons_nth_drop_Suc)
    show ?thesis
    proof (intro exI [of _ "(buf ! off, err) # rs"] conjI)
      show "length ((buf ! off, err) # rs) \<le> Suc n" using rs(1) by simp
      show "trace w' = trace w @ writeb_events rg ((buf ! off, err) # rs)"
        using rs(2) w2 by simp
      show "map fst ((buf ! off, err) # rs) = take (length ((buf ! off, err) # rs)) (drop off buf)"
        using rs(3) by (simp add: dr)
      show "\<forall>x \<in> set (butlast ((buf ! off, err) # rs)). snd x = 0"
        using rs(4) rs(7) by auto
      show "ret = (if (buf ! off, err) # rs = [] then ret0 else snd (last ((buf ! off, err) # rs)))"
        using rs(5) by simp
      show "ret = 0 \<longrightarrow> ret0 = 0 \<and> length ((buf ! off, err) # rs) = Suc n"
        using rs(6) True by simp
      show "ret0 \<noteq> 0 \<longrightarrow> (buf ! off, err) # rs = []" using True by simp
      show "kbufs w' = kbufs w" using rs(8) w2 by simp
      show "knext w' = knext w" using rs(9) w2 by simp
    qed
  qed
qed

lemma copy_req_from_user_None:
  "env_copy_req env (ext w) arg = None \<Longrightarrow>
   copy_req_from_user env w arg = (None, log (CopyReq arg False) w)"
  by (simp add: copy_req_from_user_def)

lemma copy_req_from_user_Some:
  "env_copy_req env (ext w) arg = Some r \<Longrightarrow>
   copy_req_from_user env w arg = (Some r, log (CopyReq arg True) w)"
  by (simp add: copy_req_from_user_def)

lemma kmalloc_NULL:
  "kmalloc env w n = (NULL, w1) \<Longrightarrow>
   env_kmalloc env (ext w) n = None \<and> w1 = log (Kmalloc n False) w"
  by (auto simp: kmalloc_def split: option.splits)

lemma kmalloc_Ptr:
  "kmalloc env w n = (Ptr b off, w1) \<Longrightarrow>
   b = knext w \<and> off = 0 \<and> ext w1 = ext w \<and> knext w1 = Suc (knext w)
   \<and> trace w1 = trace w @ [Kmalloc n True]
   \<and> (\<exists>junk. env_kmalloc env (ext w) n = Some junk
        \<and> kbufs w1 = (kbufs w)(b := Some (map junk [0..<n])))"
  by (auto simp: kmalloc_def split: option.splits)

lemma wrapper_simps [simp]:
  "trace (sdio_claim_host w) = trace w @ [Claim]"
  "trace (sdio_release_host w) = trace w @ [Release]"
  "trace (gpiod_direction_output w v) = trace w @ [Gpio v]"
  "trace (msleep w ms) = trace w @ [Msleep ms]"
  "trace (dev_warn w) = trace w @ [DevWarn]"
  "trace (dev_err w) = trace w @ [DevErr]"
  "kbufs (sdio_claim_host w) = kbufs w"
  "kbufs (sdio_release_host w) = kbufs w"
  "kbufs (gpiod_direction_output w v) = kbufs w"
  "kbufs (msleep w ms) = kbufs w"
  "kbufs (dev_warn w) = kbufs w"
  "kbufs (dev_err w) = kbufs w"
  "knext (sdio_claim_host w) = knext w"
  "knext (sdio_release_host w) = knext w"
  "knext (gpiod_direction_output w v) = knext w"
  "knext (msleep w ms) = knext w"
  "knext (dev_warn w) = knext w"
  "knext (dev_err w) = knext w"
  "ext (sdio_claim_host w) = ext w"
  "ext (sdio_release_host w) = ext w"
  "ext (gpiod_direction_output w v) = ext w"
  "ext (msleep w ms) = ext w"
  "ext (dev_warn w) = ext w"
  "ext (dev_err w) = ext w"
  by (simp_all add: sdio_claim_host_def sdio_release_host_def gpiod_direction_output_def
      msleep_def dev_warn_def dev_err_def)

lemma kfree_live_world:
  "kbufs w b = Some buf \<Longrightarrow>
   trace (kfree w (Ptr b 0)) = trace w @ [Kfree b] \<and>
   kbufs (kfree w (Ptr b 0)) = (kbufs w)(b := None) \<and>
   knext (kfree w (Ptr b 0)) = knext w \<and> ext (kfree w (Ptr b 0)) = ext w"
  by (simp add: kfree_def)

lemma kread_whole:
  "kbufs w b = Some buf \<Longrightarrow> length buf = n \<Longrightarrow> kread w (Ptr b 0) n = (buf, w)"
  by (simp add: kread_def)

lemma copy_to_user_whole:
  "copy_to_user env w dst (Ptr b 0) n = (bad, w1) \<Longrightarrow> kbufs w b = Some buf \<Longrightarrow> length buf = n \<Longrightarrow>
   trace w1 = trace w @ [CopyToUser dst buf (\<not> bad)] \<and> kbufs w1 = kbufs w \<and> knext w1 = knext w"
  by (auto simp: copy_to_user_def kread_whole split: prod.splits)

lemma ioctl_reg_read_cases [consumes 1, case_names fault invalid nomem buserr copyfault success]:
  assumes run: "ioctl_reg_read env w arg = (ret, w')"
  obtains
    "env_copy_req env (ext w) arg = None" "ret = - EFAULT"
      "w' = log (CopyReq arg False) w"
  | r where "env_copy_req env (ext w) arg = Some r" "len r > 32 \<or> len r = 0 \<or> data r = 0"
      "ret = - EINVAL" "w' = log (CopyReq arg True) w"
  | r where "env_copy_req env (ext w) arg = Some r" "\<not> (len r > 32 \<or> len r = 0 \<or> data r = 0)"
      "ret = - ENOMEM" "w' = log (Kmalloc (unat (len r)) False) (log (CopyReq arg True) w)"
  | r rs where "env_copy_req env (ext w) arg = Some r" "\<not> (len r > 32 \<or> len r = 0 \<or> data r = 0)"
      "rs \<noteq> []" "length rs \<le> unat (len r)" "\<forall>x \<in> set (butlast rs). snd x = 0"
      "ret = snd (last rs)" "ret \<noteq> 0"
      "trace w' = trace w @ [CopyReq arg True, Kmalloc (unat (len r)) True, Claim]
          @ readb_events (reg r) rs @ [Release, DevErr, Kfree (knext w)]"
      "kbufs w' = (kbufs w)(knext w := None)"
  | r rs where "env_copy_req env (ext w) arg = Some r" "\<not> (len r > 32 \<or> len r = 0 \<or> data r = 0)"
      "length rs = unat (len r)" "\<forall>x \<in> set rs. snd x = 0"
      "ret = - EFAULT"
      "trace w' = trace w @ [CopyReq arg True, Kmalloc (unat (len r)) True, Claim]
          @ readb_events (reg r) rs
          @ [Release, CopyToUser (data r) (map fst rs) False, Kfree (knext w)]"
      "kbufs w' = (kbufs w)(knext w := None)"
  | r rs where "env_copy_req env (ext w) arg = Some r" "\<not> (len r > 32 \<or> len r = 0 \<or> data r = 0)"
      "length rs = unat (len r)" "\<forall>x \<in> set rs. snd x = 0"
      "ret = 0"
      "trace w' = trace w @ [CopyReq arg True, Kmalloc (unat (len r)) True, Claim]
          @ readb_events (reg r) rs
          @ [Release, CopyToUser (data r) (map fst rs) True, Kfree (knext w)]"
      "kbufs w' = (kbufs w)(knext w := None)"
proof -
  show thesis
  proof (cases "env_copy_req env (ext w) arg")
    case None
    with run that(1) show thesis
      by (simp add: ioctl_reg_read_def copy_req_from_user_None)
  next
    case (Some r)
    note rq = Some
    define w1 where "w1 = log (CopyReq arg True) w"
    have cr: "copy_req_from_user env w arg = (Some r, w1)"
      unfolding w1_def by (rule copy_req_from_user_Some [OF rq])
    have w1: "ext w1 = ext w" "kbufs w1 = kbufs w" "knext w1 = knext w"
      "trace w1 = trace w @ [CopyReq arg True]"
      by (simp_all add: w1_def)
    show thesis
    proof (cases "len r > 32 \<or> len r = 0 \<or> data r = 0")
      case True
      with run cr w1_def that(2) [OF rq] show thesis
        by (auto simp: ioctl_reg_read_def)
    next
      case valid: False
      let ?n = "unat (len r)"
      have npos: "0 < ?n" using valid by (simp add: unat_gt_0)
      have cnt: "sint (len r) = int ?n" using valid by (intro sint_small_len le32_le65536) simp
      obtain p w2 where km: "kmalloc env w1 ?n = (p, w2)" by (metis prod.exhaust)
      show thesis
      proof (cases p)
        case NULL
        with run cr valid km kmalloc_NULL [of env w1 ?n w2] w1_def that(3) [OF rq] show thesis
          by (auto simp: ioctl_reg_read_def)
      next
        case (Ptr b off)
        note w2 = kmalloc_Ptr [OF km [unfolded Ptr]]
        then obtain junk where junk: "kbufs w2 = (kbufs w1)(b := Some (map junk [0..<?n]))"
          by blast
        have b: "b = knext w" "off = 0" using w2 w1 by simp_all
        let ?w3 = "sdio_claim_host w2"
        obtain rt w4 where cd: "bes2600_sdio_reg_read env ?w3 (reg r) (Ptr b 0) (sint (len r)) = (rt, w4)"
          by (metis prod.exhaust)
        have sp: "0 < sint (len r)" unfolding cnt using npos by (simp only: of_nat_0_less_iff)
        have cnt_pos: "\<not> (sint (len r) \<le> 0 \<or> Ptr b 0 = NULL)" using sp by simp
        have cnt_nat: "nat (sint (len r)) = ?n" using cnt by simp
        have lp: "reg_read_loop env ?w3 (reg r) (Ptr b 0) ?n 0 = (rt, w4)"
          using cd unfolding bes2600_sdio_reg_read_def by (simp only: cnt_pos cnt_nat if_False)
        have live3: "kbufs ?w3 b = Some (map junk [0..<?n])"
          by (simp add: junk)
        from reg_read_loop_run [OF lp live3] obtain rs where rs:
          "length rs \<le> ?n"
          "trace w4 = trace ?w3 @ readb_events (reg r) rs"
          "\<forall>x \<in> set (butlast rs). snd x = 0"
          "rt = (if rs = [] then 0 else snd (last rs))"
          "rt = 0 \<longrightarrow> length rs = ?n"
          "kbufs w4 = (kbufs ?w3)(b := Some (take 0 (map junk [0..<?n]) @ map fst rs
                 @ drop (0 + length rs) (map junk [0..<?n])))"
          "knext w4 = knext ?w3"
          by auto
        have tr3: "trace ?w3 = trace w @ [CopyReq arg True, Kmalloc ?n True, Claim]"
          using w2 w1 by simp
        let ?w5 = "sdio_release_host w4"
        have tr5: "trace ?w5 = trace w @ [CopyReq arg True, Kmalloc ?n True, Claim]
              @ readb_events (reg r) rs @ [Release]"
          using rs(2) tr3 by simp
        have rsne: "rs \<noteq> []" using rs(4,5) npos by (cases "rt = 0") auto
        show thesis
        proof (cases "rt = 0")
          case False
          have res: "ret = rt" "w' = kfree (dev_err ?w5) (Ptr b 0)"
            using run cr valid km Ptr b cd False
            by (auto simp: ioctl_reg_read_def Let_def)
          have live: "kbufs (dev_err ?w5) b \<noteq> None"
            using rs(6) by simp
          then obtain buf where buf: "kbufs (dev_err ?w5) b = Some buf" by blast
          note fr = kfree_live_world [OF buf]
          have "trace w' = trace w @ [CopyReq arg True, Kmalloc ?n True, Claim]
              @ readb_events (reg r) rs @ [Release, DevErr, Kfree b]"
            using tr5 by (simp add: res(2) fr)
          moreover have "kbufs w' = (kbufs w)(b := None)"
            using rs(6) junk w1 by (simp add: res(2) fr)
          ultimately show thesis
            using that(4) [OF rq valid rsne rs(1) rs(3)] rs(4) rsne False res(1) b(1) by simp
        next
          case True
          have len: "length rs = ?n" using rs(5) True by simp
          have all0: "\<forall>x \<in> set rs. snd x = 0"
          proof
            fix x assume "x \<in> set rs"
            then have "x \<in> set (butlast rs) \<or> x = last rs"
              using rsne by (metis append_butlast_last_id insert_iff list.set(2) rotate1.simps(2) set_rotate1)
            then show "snd x = 0" using rs(3) rs(4) rsne True by auto
          qed
          have buf5: "kbufs ?w5 b = Some (map fst rs)"
            using rs(6) len by simp
          obtain bad w6 where cu: "copy_to_user env ?w5 (data r) (Ptr b 0) ?n = (bad, w6)"
            by (metis prod.exhaust)
          have lenb: "length (map fst rs) = ?n" using len by simp
          note w6 = copy_to_user_whole [OF cu buf5 lenb]
          have res: "ret = (if bad then - EFAULT else 0)" "w' = kfree w6 (Ptr b 0)"
            using run cr valid km Ptr b cd True cu
            by (auto simp: ioctl_reg_read_def Let_def split: bool.splits)
          have buf6: "kbufs w6 b = Some (map fst rs)" using w6 buf5 by simp
          note fr = kfree_live_world [OF buf6]
          have tr: "trace w' = trace w @ [CopyReq arg True, Kmalloc ?n True, Claim]
              @ readb_events (reg r) rs
              @ [Release, CopyToUser (data r) (map fst rs) (\<not> bad), Kfree (knext w)]"
            using w6 tr5 by (simp add: res(2) fr b(1) [symmetric])
          have hp: "kbufs w' = (kbufs w)(knext w := None)"
            using w6 rs(6) junk w1 by (simp add: res(2) fr b(1) [symmetric])
          show thesis
          proof (cases bad)
            case True
            then show thesis using that(5) [OF rq valid len all0] res(1) tr hp by simp
          next
            case False
            then show thesis using that(6) [OF rq valid len all0] res(1) tr hp by simp
          qed
        qed
      qed
    qed
  qed
qed

lemmas service_defs =
  kmalloc_def kfree_def kread_def kfill_def copy_from_user_def copy_to_user_def
  sdio_memcpy_fromio_def sdio_memcpy_toio_def mmc_hw_reset_def sdio_enable_func_def
  sdio_disable_func_def sdio_claim_host_def sdio_release_host_def gpiod_direction_output_def
  msleep_def dev_warn_def dev_err_def log_def

lemma ioctl_mem_read_cases [consumes 1, case_names fault invalid nomem buserr copyfault success]:
  assumes run: "ioctl_mem_read env w arg = (ret, w')"
  obtains
    "env_copy_req env (ext w) arg = None" "ret = - EFAULT"
      "w' = log (CopyReq arg False) w"
  | r where "env_copy_req env (ext w) arg = Some r" "len r > 1024 * 64 \<or> len r = 0 \<or> data r = 0"
      "ret = - EINVAL" "w' = log (CopyReq arg True) w"
  | r where "env_copy_req env (ext w) arg = Some r"
      "\<not> (len r > 1024 * 64 \<or> len r = 0 \<or> data r = 0)"
      "ret = - ENOMEM" "w' = log (Kmalloc (unat (len r)) False) (log (CopyReq arg True) w)"
  | r where "env_copy_req env (ext w) arg = Some r"
      "\<not> (len r > 1024 * 64 \<or> len r = 0 \<or> data r = 0)"
      "ret \<noteq> 0"
      "trace w' = trace w @ [CopyReq arg True, Kmalloc (unat (len r)) True, Claim,
          MemcpyFromio (reg r) (unat (len r)) ret, Release, DevErr, Kfree (knext w)]"
      "kbufs w' = (kbufs w)(knext w := None)"
  | r bs where "env_copy_req env (ext w) arg = Some r"
      "\<not> (len r > 1024 * 64 \<or> len r = 0 \<or> data r = 0)"
      "ret = - EFAULT" "length bs = unat (len r)"
      "trace w' = trace w @ [CopyReq arg True, Kmalloc (unat (len r)) True, Claim,
          MemcpyFromio (reg r) (unat (len r)) 0, Release,
          CopyToUser (data r) bs False, Kfree (knext w)]"
      "kbufs w' = (kbufs w)(knext w := None)"
  | r bs where "env_copy_req env (ext w) arg = Some r"
      "\<not> (len r > 1024 * 64 \<or> len r = 0 \<or> data r = 0)"
      "ret = 0" "length bs = unat (len r)"
      "trace w' = trace w @ [CopyReq arg True, Kmalloc (unat (len r)) True, Claim,
          MemcpyFromio (reg r) (unat (len r)) 0, Release,
          CopyToUser (data r) bs True, Kfree (knext w)]"
      "kbufs w' = (kbufs w)(knext w := None)"
proof (cases "env_copy_req env (ext w) arg")
  case None
  with run that(1) show thesis
    by (simp add: ioctl_mem_read_def copy_req_from_user_None)
next
  case (Some r)
  note rq = Some
  note cr = copy_req_from_user_Some [OF rq]
  show thesis
  proof (cases "len r > 1024 * 64 \<or> len r = 0 \<or> data r = 0")
    case True
    with run cr that(2) [OF rq] show thesis
      by (auto simp: ioctl_mem_read_def)
  next
    case valid: False
    show thesis
    proof (cases "env_kmalloc env (ext w) (unat (len r))")
      case None
      with run cr valid that(3) [OF rq] show thesis
        by (auto simp: ioctl_mem_read_def kmalloc_def)
    next
      case (Some junk)
      obtain f rt e1 where io: "env_memcpy_fromio env (ext w) (reg r) (unat (len r)) = ((f, rt), e1)"
        by (metis prod.exhaust)
      show thesis
      proof (cases "rt = 0")
        case False
        with run cr valid Some io that(4) [OF rq valid] show thesis
          by (auto simp: ioctl_mem_read_def service_defs Let_def)
      next
        case True
        obtain left e2 where cu: "env_copy_to_user env e1 (data r) (map f [0..<unat (len r)]) = (left, e2)"
          by (metis prod.exhaust)
        show thesis
        proof (cases "left = 0")
          case False
          with run cr valid Some io True cu that(5) [OF rq valid, of "map f [0..<unat (len r)]"]
          show thesis
            by (auto simp: ioctl_mem_read_def service_defs Let_def)
        next
          case left0: True
          with run cr valid Some io True cu that(6) [OF rq valid, of "map f [0..<unat (len r)]"]
          show thesis
            by (auto simp: ioctl_mem_read_def service_defs Let_def)
        qed
      qed
    qed
  qed
qed

lemma ioctl_reset_run:
  assumes hr: "env_hw_reset env (ext w) = (r1, e1)"
      and en: "env_enable_func env e1 = (r2, e2)"
  shows "fst (ioctl_reset env w) = r2"
    and "trace (snd (ioctl_reset env w)) = trace w @ [Gpio False, Claim, HwReset r1]
           @ (if r1 \<noteq> 0 then [DevWarn] else [])
           @ [Gpio True, Msleep 10, EnableFunc r2, Release]"
    and "kbufs (snd (ioctl_reset env w)) = kbufs w"
    and "ext (snd (ioctl_reset env w)) = e2"
  using hr en by (auto simp: ioctl_reset_def service_defs Let_def)

lemma ioctl_mem_write_cases
  [consumes 1, case_names fault invalid nomem payloadfault buserr success]:
  assumes run: "ioctl_mem_write env w arg = (ret, w')"
  obtains
    "env_copy_req env (ext w) arg = None" "ret = - EFAULT"
      "w' = log (CopyReq arg False) w"
  | r where "env_copy_req env (ext w) arg = Some r" "len r > 64 * 1024 \<or> len r = 0 \<or> data r = 0"
      "ret = - EINVAL" "w' = log (CopyReq arg True) w"
  | r where "env_copy_req env (ext w) arg = Some r"
      "\<not> (len r > 64 * 1024 \<or> len r = 0 \<or> data r = 0)"
      "ret = - ENOMEM" "w' = log (Kmalloc (unat (len r)) False) (log (CopyReq arg True) w)"
  | r junk where "env_copy_req env (ext w) arg = Some r"
      "\<not> (len r > 64 * 1024 \<or> len r = 0 \<or> data r = 0)"
      "env_copy_from_user env (ext w) (data r) (unat (len r)) = None"
      "ret = - EFAULT"
      "trace w' = trace w @ [CopyReq arg True, Kmalloc (unat (len r)) True,
          CopyFromUser (data r) (unat (len r)) False]"
      "kbufs w' = (kbufs w)(knext w := Some (map junk [0..<unat (len r)]))"
  | r f where "env_copy_req env (ext w) arg = Some r"
      "\<not> (len r > 64 * 1024 \<or> len r = 0 \<or> data r = 0)"
      "env_copy_from_user env (ext w) (data r) (unat (len r)) = Some f"
      "ret \<noteq> 0"
      "trace w' = trace w @ [CopyReq arg True, Kmalloc (unat (len r)) True,
          CopyFromUser (data r) (unat (len r)) True, Claim,
          MemcpyToio (reg r) (map f [0..<unat (len r)]) ret, Release, Kfree (knext w), DevErr]"
      "kbufs w' = (kbufs w)(knext w := None)"
  | r f where "env_copy_req env (ext w) arg = Some r"
      "\<not> (len r > 64 * 1024 \<or> len r = 0 \<or> data r = 0)"
      "env_copy_from_user env (ext w) (data r) (unat (len r)) = Some f"
      "ret = 0"
      "trace w' = trace w @ [CopyReq arg True, Kmalloc (unat (len r)) True,
          CopyFromUser (data r) (unat (len r)) True, Claim,
          MemcpyToio (reg r) (map f [0..<unat (len r)]) 0, Release, Kfree (knext w)]"
      "kbufs w' = (kbufs w)(knext w := None)"
proof (cases "env_copy_req env (ext w) arg")
  case None
  with run that(1) show thesis
    by (simp add: ioctl_mem_write_def copy_req_from_user_None)
next
  case (Some r)
  note rq = Some
  note cr = copy_req_from_user_Some [OF rq]
  show thesis
  proof (cases "len r > 64 * 1024 \<or> len r = 0 \<or> data r = 0")
    case True
    with run cr that(2) [OF rq] show thesis
      by (auto simp: ioctl_mem_write_def)
  next
    case valid: False
    show thesis
    proof (cases "env_kmalloc env (ext w) (unat (len r))")
      case None
      with run cr valid that(3) [OF rq] show thesis
        by (auto simp: ioctl_mem_write_def kmalloc_def)
    next
      case (Some junk)
      note km = Some
      show thesis
      proof (cases "env_copy_from_user env (ext w) (data r) (unat (len r))")
        case None
        with run cr valid km that(4) [OF rq valid, of junk] show thesis
          by (auto simp: ioctl_mem_write_def service_defs Let_def)
      next
        case (Some f)
        obtain rt e1 where io:
          "env_memcpy_toio env (ext w) (reg r) (map f [0..<unat (len r)]) = (rt, e1)"
          by (metis prod.exhaust)
        show thesis
        proof (cases "rt = 0")
          case False
          with run cr valid km Some io that(5) [OF rq valid Some] show thesis
            by (auto simp: ioctl_mem_write_def service_defs Let_def)
        next
          case True
          with run cr valid km Some io that(6) [OF rq valid Some] show thesis
            by (auto simp: ioctl_mem_write_def service_defs Let_def)
        qed
      qed
    qed
  qed
qed

lemma le65536: "\<not> (l::u32) > 64 * 1024 \<Longrightarrow> l \<le> 65536"
  by (simp add: not_less)

lemma ioctl_reg_write_cases
  [consumes 1, case_names fault invalid nomem payloadfault buserr success]:
  assumes run: "ioctl_reg_write env w arg = (ret, w')"
  obtains
    "env_copy_req env (ext w) arg = None" "ret = - EFAULT"
      "w' = log (CopyReq arg False) w"
  | r where "env_copy_req env (ext w) arg = Some r" "len r > 64 * 1024 \<or> len r = 0 \<or> data r = 0"
      "ret = - EINVAL" "w' = log (CopyReq arg True) w"
  | r where "env_copy_req env (ext w) arg = Some r"
      "\<not> (len r > 64 * 1024 \<or> len r = 0 \<or> data r = 0)"
      "ret = - ENOMEM" "w' = log (Kmalloc (unat (len r)) False) (log (CopyReq arg True) w)"
  | r junk where "env_copy_req env (ext w) arg = Some r"
      "\<not> (len r > 64 * 1024 \<or> len r = 0 \<or> data r = 0)"
      "env_copy_from_user env (ext w) (data r) (unat (len r)) = None"
      "ret = - EFAULT"
      "trace w' = trace w @ [CopyReq arg True, Kmalloc (unat (len r)) True,
          CopyFromUser (data r) (unat (len r)) False]"
      "kbufs w' = (kbufs w)(knext w := Some (map junk [0..<unat (len r)]))"
  | r f rs where "env_copy_req env (ext w) arg = Some r"
      "\<not> (len r > 64 * 1024 \<or> len r = 0 \<or> data r = 0)"
      "env_copy_from_user env (ext w) (data r) (unat (len r)) = Some f"
      "rs \<noteq> []" "length rs \<le> unat (len r)" "map fst rs = map f [0..<length rs]"
      "\<forall>x \<in> set (butlast rs). snd x = 0" "ret = snd (last rs)" "ret \<noteq> 0"
      "trace w' = trace w @ [CopyReq arg True, Kmalloc (unat (len r)) True,
          CopyFromUser (data r) (unat (len r)) True, Claim]
          @ writeb_events (reg r) rs @ [Release, Kfree (knext w), DevErr]"
      "kbufs w' = (kbufs w)(knext w := None)"
  | r f rs where "env_copy_req env (ext w) arg = Some r"
      "\<not> (len r > 64 * 1024 \<or> len r = 0 \<or> data r = 0)"
      "env_copy_from_user env (ext w) (data r) (unat (len r)) = Some f"
      "length rs = unat (len r)" "map fst rs = map f [0..<unat (len r)]"
      "\<forall>x \<in> set rs. snd x = 0" "ret = 0"
      "trace w' = trace w @ [CopyReq arg True, Kmalloc (unat (len r)) True,
          CopyFromUser (data r) (unat (len r)) True, Claim]
          @ writeb_events (reg r) rs @ [Release, Kfree (knext w)]"
      "kbufs w' = (kbufs w)(knext w := None)"
proof (cases "env_copy_req env (ext w) arg")
  case None
  with run that(1) show thesis
    by (simp add: ioctl_reg_write_def copy_req_from_user_None)
next
  case (Some r)
  note rq = Some
  note cr = copy_req_from_user_Some [OF rq]
  show thesis
  proof (cases "len r > 64 * 1024 \<or> len r = 0 \<or> data r = 0")
    case True
    with run cr that(2) [OF rq] show thesis
      by (auto simp: ioctl_reg_write_def)
  next
    case valid: False
    let ?n = "unat (len r)"
    have npos: "0 < ?n" using valid by (simp add: unat_gt_0)
    have cnt: "sint (len r) = int ?n" using valid by (intro sint_small_len le65536) simp
    show thesis
    proof (cases "env_kmalloc env (ext w) ?n")
      case None
      with run cr valid that(3) [OF rq] show thesis
        by (auto simp: ioctl_reg_write_def kmalloc_def)
    next
      case (Some junk)
      note km = Some
      define b where "b = knext w"
      show thesis
      proof (cases "env_copy_from_user env (ext w) (data r) ?n")
        case None
        with run cr valid km that(4) [OF rq valid, of junk] show thesis
          by (auto simp: ioctl_reg_write_def service_defs Let_def)
      next
        case (Some f)
        note cf = Some
        define w1 where "w1 = log (CopyReq arg True) w"
        define w2 where "w2 = snd (kmalloc env w1 ?n)"
        define w3 where "w3 = snd (copy_from_user env w2 (Ptr b 0) (data r) ?n)"
        have km2: "kmalloc env w1 ?n = (Ptr b 0, w2)"
          using km by (simp add: w2_def w1_def b_def kmalloc_def)
        have w2: "ext w2 = ext w" "kbufs w2 = (kbufs w)(b := Some (map junk [0..<?n]))"
          "trace w2 = trace w @ [CopyReq arg True, Kmalloc ?n True]" "knext w2 = Suc (knext w)"
          using km by (simp_all add: w2_def w1_def b_def kmalloc_def)
        have cf3: "copy_from_user env w2 (Ptr b 0) (data r) ?n = (False, w3)"
          using cf w2 by (simp add: w3_def copy_from_user_def)
        have w3: "kbufs w3 = (kbufs w)(b := Some (map f [0..<?n]))"
          "trace w3 = trace w @ [CopyReq arg True, Kmalloc ?n True, CopyFromUser (data r) ?n True]"
          using cf w2 by (simp_all add: w3_def copy_from_user_def kfill_def)
        let ?w4 = "sdio_claim_host w3"
        obtain rt w5 where cd:
          "bes2600_sdio_reg_write env ?w4 (reg r) (Ptr b 0) (sint (len r)) = (rt, w5)"
          by (metis prod.exhaust)
        have res: "ret = rt" "w' = (if rt \<noteq> 0 then dev_err (kfree (sdio_release_host w5) (Ptr b 0))
                      else kfree (sdio_release_host w5) (Ptr b 0))"
          using run valid cr [folded w1_def] km2 cf3 cd
          by (auto simp: ioctl_reg_write_def Let_def split: if_splits)
        have sp: "0 < sint (len r)" unfolding cnt using npos by (simp only: of_nat_0_less_iff)
        have cnt_pos: "\<not> (sint (len r) \<le> 0 \<or> Ptr b 0 = NULL)" using sp by simp
        have cnt_nat: "nat (sint (len r)) = ?n" using cnt by simp
        have lp: "reg_write_loop env ?w4 (reg r) (Ptr b 0) ?n 0 = (rt, w5)"
          using cd unfolding bes2600_sdio_reg_write_def by (simp only: cnt_pos cnt_nat if_False)
        have live4: "kbufs ?w4 b = Some (map f [0..<?n])" by (simp add: w3)
        from reg_write_loop_run [OF lp live4] obtain rs where rs:
          "length rs \<le> ?n"
          "trace w5 = trace ?w4 @ writeb_events (reg r) rs"
          "map fst rs = take (length rs) (drop 0 (map f [0..<?n]))"
          "\<forall>x \<in> set (butlast rs). snd x = 0"
          "rt = (if rs = [] then 0 else snd (last rs))"
          "rt = 0 \<longrightarrow> length rs = ?n"
          "kbufs w5 = kbufs ?w4"
          "knext w5 = knext ?w4"
          by auto
        have rsne: "rs \<noteq> []" using rs(5,6) npos by (cases "rt = 0") auto
        have vals: "map fst rs = map f [0..<length rs]"
          using rs(1,3) by (simp add: take_map)
        have buf: "kbufs (sdio_release_host w5) b = Some (map f [0..<?n])"
          using rs(7) live4 by simp
        note fr = kfree_live_world [OF buf]
        have tr: "trace (kfree (sdio_release_host w5) (Ptr b 0)) =
            trace w @ [CopyReq arg True, Kmalloc ?n True, CopyFromUser (data r) ?n True, Claim]
            @ writeb_events (reg r) rs @ [Release, Kfree b]"
          using rs(2) by (simp add: fr w3)
        have hp: "kbufs (kfree (sdio_release_host w5) (Ptr b 0)) = (kbufs w)(b := None)"
          using rs(7) by (simp add: fr w3)
        show thesis
        proof (cases "rt = 0")
          case False
          then show thesis
            using that(5) [OF rq valid cf rsne rs(1) vals rs(4)] rs(5) rsne res tr hp
            by (simp add: b_def)
        next
          case True
          have len: "length rs = ?n" using rs(6) True by simp
          have all0: "\<forall>x \<in> set rs. snd x = 0"
          proof
            fix x assume "x \<in> set rs"
            then have "x \<in> set (butlast rs) \<or> x = last rs"
              using rsne by (metis append_butlast_last_id insert_iff list.set(2) rotate1.simps(2) set_rotate1)
            then show "snd x = 0" using rs(4) rs(5) rsne True by auto
          qed
          show thesis
            using that(6) [OF rq valid cf len _ all0] vals len True res tr hp
            by (simp add: b_def)
        qed
      qed
    qed
  qed
qed

lemma guard_run_append:
  "guard_run h (xs @ ys) = (case guard_run h xs of None \<Rightarrow> None | Some h' \<Rightarrow> guard_run h' ys)"
  by (induction xs arbitrary: h) auto

lemma guard_run_readb_events [simp]: "guard_run True (readb_events rg rs) = Some True"
  by (induction rs arbitrary: rg) auto

lemma guard_run_writeb_events [simp]: "guard_run True (writeb_events rg rs) = Some True"
  by (induction rs arbitrary: rg) auto

lemma init_world_simps [simp]:
  "trace (init_world e) = []" "ext (init_world e) = e"
  "kbufs (init_world e) = (\<lambda>b. None)" "knext (init_world e) = 0"
  by (simp_all add: init_world_def)

lemma guard_reset: "guard_run False (trace (snd (ioctl_reset env (init_world e)))) = Some False"
proof -
  obtain r1 e1 where hr: "env_hw_reset env (ext (init_world e)) = (r1, e1)" by (metis prod.exhaust)
  obtain r2 e2 where en: "env_enable_func env e1 = (r2, e2)" by (metis prod.exhaust)
  show ?thesis by (simp add: ioctl_reset_run(2) [OF hr en])
qed

lemma guard_reg_read:
  "guard_run False (trace (snd (ioctl_reg_read env (init_world e) arg))) = Some False"
proof -
  obtain ret w' where run: "ioctl_reg_read env (init_world e) arg = (ret, w')"
    by (metis prod.exhaust)
  from run show ?thesis
    by (cases rule: ioctl_reg_read_cases) (simp_all add: run guard_run_append)
qed

lemma guard_reg_write:
  "guard_run False (trace (snd (ioctl_reg_write env (init_world e) arg))) = Some False"
proof -
  obtain ret w' where run: "ioctl_reg_write env (init_world e) arg = (ret, w')"
    by (metis prod.exhaust)
  from run show ?thesis
    by (cases rule: ioctl_reg_write_cases) (simp_all add: run guard_run_append)
qed

lemma guard_mem_read:
  "guard_run False (trace (snd (ioctl_mem_read env (init_world e) arg))) = Some False"
proof -
  obtain ret w' where run: "ioctl_mem_read env (init_world e) arg = (ret, w')"
    by (metis prod.exhaust)
  from run show ?thesis
    by (cases rule: ioctl_mem_read_cases) (simp_all add: run guard_run_append)
qed

lemma guard_mem_write:
  "guard_run False (trace (snd (ioctl_mem_write env (init_world e) arg))) = Some False"
proof -
  obtain ret w' where run: "ioctl_mem_write env (init_world e) arg = (ret, w')"
    by (metis prod.exhaust)
  from run show ?thesis
    by (cases rule: ioctl_mem_write_cases) (simp_all add: run guard_run_append)
qed

lemma bus_reads_append: "bus_reads (xs @ ys) = bus_reads xs @ bus_reads ys"
  by (induction xs rule: bus_reads.induct) simp_all

lemma byte_status_append: "byte_status (xs @ ys) = byte_status xs @ byte_status ys"
  by (induction xs rule: byte_status.induct) simp_all

lemma copied_out_append: "copied_out (xs @ ys) = copied_out xs @ copied_out ys"
  by (induction xs rule: copied_out.induct) simp_all

lemma upt_0_Suc: "[0..<Suc n] = 0 # map Suc [0..<n]"
  by (simp only: upt_conv_Cons [OF zero_less_Suc] map_Suc_upt)

lemma bus_reads_readb_events:
  "bus_reads (readb_events rg rs) =
     map (\<lambda>i. (rg + of_nat i, fst (rs ! i), snd (rs ! i))) [0..<length rs]"
proof (induction rs arbitrary: rg)
  case Nil
  show ?case by simp
next
  case (Cons x rs)
  obtain v err where x: "x = (v, err)" by (cases x)
  show ?case
    by (simp add: x Cons.IH upt_0_Suc add.assoc del: upt_Suc)
qed

lemma map_nth_f: "map (\<lambda>i. f (xs ! i)) [0..<length xs] = map f xs"
  by (rule nth_equalityI) auto

lemma byte_status_readb_events [simp]: "byte_status (readb_events rg rs) = map snd rs"
  by (induction rs arbitrary: rg) auto

lemma byte_status_writeb_events [simp]: "byte_status (writeb_events rg rs) = map snd rs"
  by (induction rs arbitrary: rg) auto

lemma copied_out_readb_events [simp]: "copied_out (readb_events rg rs) = []"
  by (induction rs arbitrary: rg) auto

lemma copied_out_writeb_events [simp]: "copied_out (writeb_events rg rs) = []"
  by (induction rs arbitrary: rg) auto

lemma valid_len_read: "\<not> (32 < l \<or> l = 0 \<or> (d::u64) = 0) \<Longrightarrow> 0 < unat (l::u32) \<and> unat l \<le> 32"
  by (auto simp: unat_gt_0 word_less_nat_alt not_less)

lemma only_last_fails:
  assumes "\<forall>x \<in> set (butlast rs). snd x = 0" "i < length rs" "snd (rs ! i) \<noteq> 0"
  shows "Suc i = length rs"
proof (rule ccontr)
  assume "Suc i \<noteq> length rs"
  then have lt: "i < length (butlast rs)" using assms(2) by simp
  then have "butlast rs ! i \<in> set (butlast rs)" by (rule nth_mem)
  then have "snd (butlast rs ! i) = 0" using assms(1) by blast
  then show False using assms(3) lt by (simp add: nth_butlast)
qed

lemma failed_transfer_is_last:
  assumes "\<forall>x \<in> set (butlast rs). snd x = 0" "i < length rs" "snd (rs ! i) \<noteq> 0"
  shows "Suc i = length rs \<and> snd (last rs) = snd (rs ! i)"
proof -
  have l: "Suc i = length rs" by (rule only_last_fails [OF assms])
  then have "rs \<noteq> []" by auto
  moreover have "length rs - 1 = i" using l by arith
  ultimately have "last rs = rs ! i" by (simp add: last_conv_nth)
  then show ?thesis using l by simp
qed

lemma thread_events_simps [simp]:
  "thread_events t [] = []"
  "thread_events t ((t', ev) # s) = (if t' = t then ev # thread_events t s else thread_events t s)"
  "thread_events t (xs @ ys) = thread_events t xs @ thread_events t ys"
  by (simp_all add: thread_events_def)

lemma host_ok_append:
  "host_ok h (p @ q) \<longleftrightarrow> host_ok h p \<and> host_ok (holder_after h p) q"
  by (induction p arbitrary: h) auto

lemma guard_run_prefix:
  "guard_run h (xs @ ys) \<noteq> None \<Longrightarrow> \<exists>h'. guard_run h xs = Some h' \<and> guard_run h' ys \<noteq> None"
  by (cases "guard_run h xs") (auto simp: guard_run_append)

text \<open>While a thread holds the host and does not release it, it stays the holder.\<close>

lemma holder_kept:
  "host_ok (Some a) p \<Longrightarrow> Release \<notin> set (thread_events a p) \<Longrightarrow>
   holder_after (Some a) p = Some a"
proof (induction p)
  case Nil
  show ?case by simp
next
  case (Cons x p)
  obtain t ev where x: "x = (t, ev)" by (cases x)
  have nc: "ev \<noteq> Claim" using Cons.prems(1) by (auto simp: x)
  have nr: "ev \<noteq> Release" using Cons.prems(1,2) by (auto simp: x)
  have ok: "host_ok (Some a) p" using Cons.prems(1) nc nr by (simp add: x)
  have norel: "Release \<notin> set (thread_events a p)"
    using Cons.prems(2) by (cases "t = a") (simp_all add: x)
  show ?case using Cons.IH [OF ok norel] nc nr by (simp add: x)
qed

lemma holder_after_claim:
  "host_ok h p \<Longrightarrow> Claim \<in> set (thread_events a p) \<Longrightarrow>
   Release \<notin> set (thread_events a p) \<Longrightarrow> holder_after h p = Some a"
proof (induction p arbitrary: h)
  case Nil
  then show ?case by simp
next
  case (Cons x p)
  obtain t ev where x: "x = (t, ev)" by (cases x)
  show ?case
  proof (cases "t = a \<and> ev = Claim")
    case True
    with Cons.prems x have "host_ok (Some a) p" "Release \<notin> set (thread_events a p)"
      by (auto split: if_splits)
    then show ?thesis using True x by (simp add: holder_kept)
  next
    case False
    with Cons.prems x have
      "host_ok (if ev = Claim then Some t else if ev = Release then None else h) p"
      "Claim \<in> set (thread_events a p)" "Release \<notin> set (thread_events a p)"
      by (auto split: if_splits)
    from Cons.IH [OF this] show ?thesis using x by simp
  qed
qed

text \<open>The view that a thread has of the guard agrees with the host.\<close>

lemma thread_view:
  "host_ok h p \<Longrightarrow> guard_run hB (thread_events b p) = Some hB' \<Longrightarrow>
   (hB \<longleftrightarrow> h = Some b) \<Longrightarrow> (hB' \<longleftrightarrow> holder_after h p = Some b)"
proof (induction p arbitrary: h hB)
  case Nil
  then show ?case by simp
next
  case (Cons x p)
  obtain t ev where x: "x = (t, ev)" by (cases x)
  define h1 where "h1 = (if ev = Claim then Some t else if ev = Release then None else h)"
  define hB1 where
    "hB1 = (if t = b \<and> ev = Claim then True else if t = b \<and> ev = Release then False else hB)"
  have ok1: "host_ok h1 p"
    using Cons.prems(1) by (simp add: x h1_def split: if_splits)
  have g1: "guard_run hB1 (thread_events b p) = Some hB'"
    using Cons.prems(2) by (cases "t = b") (simp_all add: x hB1_def split: if_splits)
  have v1: "hB1 \<longleftrightarrow> h1 = Some b"
    using Cons.prems(1,2,3) by (cases "t = b") (simp_all add: x h1_def hB1_def split: if_splits)
  have "hB' \<longleftrightarrow> holder_after h1 p = Some b"
    by (rule Cons.IH [OF ok1 g1 v1])
  then show ?case by (simp add: x h1_def)
qed

text \<open>While one thread holds the host, no other thread makes a bus call.\<close>

lemma held_excludes:
  "host_ok (Some a) s2 \<Longrightarrow> Release \<notin> set (thread_events a s2) \<Longrightarrow>
   (t, ev) \<in> set s2 \<Longrightarrow>
   (t \<noteq> a \<Longrightarrow> guard_run False (thread_events t s2 @ rest) \<noteq> None) \<Longrightarrow>
   ev \<noteq> Claim \<and> ev \<noteq> Release \<and> (t \<noteq> a \<longrightarrow> \<not> on_bus ev)"
proof (induction s2)
  case Nil
  then show ?case by simp
next
  case (Cons x s2)
  obtain t' ev' where x: "x = (t', ev')" by (cases x)
  have nc: "ev' \<noteq> Claim" using Cons.prems(1) by (auto simp: x)
  have nr: "ev' \<noteq> Release" using Cons.prems(1,2) by (auto simp: x)
  have ok: "host_ok (Some a) s2" using Cons.prems(1) nc nr by (simp add: x)
  have norel: "Release \<notin> set (thread_events a s2)"
    using Cons.prems(2) by (cases "t' = a") (simp_all add: x)
  have gr: "guard_run False (thread_events t s2 @ rest) \<noteq> None" if "t \<noteq> a"
    using Cons.prems(4) [OF that] nc nr
    by (cases "t' = t") (simp_all add: x split: if_splits)
  show ?case
  proof (cases "(t, ev) = x")
    case True
    have "\<not> on_bus ev" if "t \<noteq> a"
      using Cons.prems(4) [OF that] True nc nr by (simp add: x split: if_splits)
    then show ?thesis using True x nc nr by auto
  next
    case False
    then have mem: "(t, ev) \<in> set s2" using Cons.prems(3) by simp
    show ?thesis by (rule Cons.IH [OF ok norel mem gr])
  qed
qed

lemma reset_split:
  assumes "A1 @ HwReset r1 # A2 @ EnableFunc r2 # A3 =
           [Gpio False, Claim, HwReset ra] @ W @ [Gpio True, Msleep 10, EnableFunc rb, Release]"
      and "W = [] \<or> W = [DevWarn]"
  shows "A1 = [Gpio False, Claim] \<and> A2 = W @ [Gpio True, Msleep 10] \<and> A3 = [Release]"
  using assms by (auto simp: append_eq_Cons_conv Cons_eq_append_conv)

lemma ioctl_guard_run:
  "guard_run False (trace (snd (besdbg_ioctl env (init_world e) cmd arg))) = Some False"
  by (simp add: besdbg_ioctl_def guard_reset guard_reg_read guard_reg_write guard_mem_read
      guard_mem_write)

lemma run_pair: "fst p = a \<Longrightarrow> p = (a, snd p)"
  by (cases p) simp

subsection \<open>Kernel memory\<close>

text \<open>
  The dispatcher never touches kernel memory outside a live buffer: whatever the request
  and the environment, the log of a call has no \<open>MemFault\<close>. The cases of the model
  that stand for undefined behaviour of the C code are therefore never taken from
  \<^verbatim>\<open>besdbg_ioctl\<close>.
\<close>

lemma no_fault_readb_events [simp]: "MemFault \<notin> set (readb_events rg rs)"
  by (induction rs arbitrary: rg) auto

lemma no_fault_writeb_events [simp]: "MemFault \<notin> set (writeb_events rg rs)"
  by (induction rs arbitrary: rg) auto

lemma dispatcher_memory_safe:
  "MemFault \<notin> set (trace (snd (besdbg_ioctl env (init_world e) cmd arg)))"
proof -
  obtain ret w' where run: "besdbg_ioctl env (init_world e) cmd arg = (ret, w')"
    by (metis prod.exhaust)
  consider (reset) "ioctl_reset env (init_world e) = (ret, w')"
    | (rr) "ioctl_reg_read env (init_world e) arg = (ret, w')"
    | (rw) "ioctl_reg_write env (init_world e) arg = (ret, w')"
    | (mr) "ioctl_mem_read env (init_world e) arg = (ret, w')"
    | (mw) "ioctl_mem_write env (init_world e) arg = (ret, w')"
    | (other) "w' = init_world e"
    using run by (auto simp: besdbg_ioctl_def split: if_splits)
  then have "MemFault \<notin> set (trace w')"
  proof cases
    case reset
    obtain r1 e1 where hr: "env_hw_reset env (ext (init_world e)) = (r1, e1)"
      by (metis prod.exhaust)
    obtain r2 e2 where en: "env_enable_func env e1 = (r2, e2)" by (metis prod.exhaust)
    from ioctl_reset_run(2) [OF hr en] reset show ?thesis by simp
  next
    case rr
    then show ?thesis by (cases rule: ioctl_reg_read_cases) simp_all
  next
    case rw
    then show ?thesis by (cases rule: ioctl_reg_write_cases) simp_all
  next
    case mr
    then show ?thesis by (cases rule: ioctl_mem_read_cases) simp_all
  next
    case mw
    then show ?thesis by (cases rule: ioctl_mem_write_cases) simp_all
  next
    case other
    then show ?thesis by simp
  qed
  then show ?thesis by (simp add: run)
qed

subsection \<open>The bus ownership guard\<close>

text \<open>
  Claim C1. For every request code (the four data-carrying operations, the reset, and any
  unknown code), every environment and every outcome, the log of one call of the
  dispatcher respects the guard: the host is never claimed while it is already claimed,
  never released while it is not claimed, every call that uses the bus is made while the
  host is claimed, and the host is released when the call returns.
\<close>

theorem guard_released_on_every_path:
  "guard_run False (trace (snd (besdbg_ioctl env (init_world e) cmd arg))) = Some False"
  by (rule ioctl_guard_run)

theorem guard_released_on_every_path_witness:
  "guard_run False
     (trace (snd (besdbg_ioctl (mock_env read4 3) (init_world 0) BESDBG_IOCTL_REG_READ 0x1000)))
   = Some False"
  by (rule guard_released_on_every_path)

subsection \<open>Validation\<close>

text \<open>
  Claim C2. For each of the four data-carrying operations: when the request record has
  been read from the client and its length is 0, or exceeds the bound of the operation
  (32 for a register read, 64 KiB for the other three), or its payload pointer is null,
  the dispatcher returns \<open>-EINVAL\<close> and has done nothing but read the record: no claim,
  no transfer, no lifecycle action, no allocation.
\<close>

theorem invalid_request_rejected:
  assumes "cmd \<in> {BESDBG_IOCTL_REG_READ, BESDBG_IOCTL_REG_WRITE,
                  BESDBG_IOCTL_MEM_READ, BESDBG_IOCTL_MEM_WRITE}"
      and "env_copy_req env e arg = Some r"
      and "len r = 0 \<or> len r > len_bound cmd \<or> data r = 0"
  shows "besdbg_ioctl env (init_world e) cmd arg
           = (- EINVAL, log (CopyReq arg True) (init_world e))"
  using assms
  by (auto simp: besdbg_ioctl_def ioctl_codes_distinct ioctl_codes_distinct [symmetric]
      len_bound_def ioctl_reg_read_def ioctl_reg_write_def ioctl_mem_read_def ioctl_mem_write_def
      copy_req_from_user_Some)

text \<open>The scenario of the specification: a block write of 70000 bytes.\<close>

theorem invalid_request_rejected_witness:
  "BESDBG_IOCTL_MEM_WRITE \<in> {BESDBG_IOCTL_REG_READ, BESDBG_IOCTL_REG_WRITE,
                  BESDBG_IOCTL_MEM_READ, BESDBG_IOCTL_MEM_WRITE}
   \<and> env_copy_req (mock_env too_long 0) 0 0x1000 = Some too_long
   \<and> (len too_long = 0 \<or> len too_long > len_bound BESDBG_IOCTL_MEM_WRITE \<or> data too_long = 0)
   \<and> besdbg_ioctl (mock_env too_long 0) (init_world 0) BESDBG_IOCTL_MEM_WRITE 0x1000
           = (- EINVAL, log (CopyReq 0x1000 True) (init_world 0))"
proof -
  have h1: "BESDBG_IOCTL_MEM_WRITE \<in> {BESDBG_IOCTL_REG_READ, BESDBG_IOCTL_REG_WRITE,
                  BESDBG_IOCTL_MEM_READ, BESDBG_IOCTL_MEM_WRITE}"
    by simp
  have h2: "env_copy_req (mock_env too_long 0) 0 0x1000 = Some too_long"
    by (simp add: mock_env_def mock_copy_req_def)
  have h3: "len too_long = 0 \<or> len too_long > len_bound BESDBG_IOCTL_MEM_WRITE
              \<or> data too_long = 0"
    by (simp add: too_long_def len_bound_def ioctl_codes_distinct [symmetric])
  show ?thesis
    by (rule conjI [OF h1 conjI [OF h2 conjI [OF h3 invalid_request_rejected [OF h1 h2 h3]]]])
qed

subsection \<open>The staging buffer\<close>

text \<open>
  What becomes of the staging buffer, on every path of every operation: it is freed
  before the call returns, except when the payload of a register write or of a block
  write cannot be copied in from the client. On that path the call returns \<open>-EFAULT\<close>
  and the buffer stays allocated.
\<close>

lemma staging_buffer_fate:
  assumes run: "besdbg_ioctl env (init_world e) cmd arg = (ret, w')"
  shows "kbufs w' = (\<lambda>b. None)
       \<or> ((cmd = BESDBG_IOCTL_REG_WRITE \<or> cmd = BESDBG_IOCTL_MEM_WRITE) \<and> ret = - EFAULT
          \<and> (\<exists>r. env_copy_req env e arg = Some r
                \<and> env_copy_from_user env e (data r) (unat (len r)) = None
                \<and> (\<exists>junk. kbufs w' = (\<lambda>b. None)(0 := Some (map junk [0..<unat (len r)])))))"
proof -
  consider (reset) "cmd = BESDBG_IOCTL_RESET" "ioctl_reset env (init_world e) = (ret, w')"
    | (rr) "cmd = BESDBG_IOCTL_REG_READ" "ioctl_reg_read env (init_world e) arg = (ret, w')"
    | (rw) "cmd = BESDBG_IOCTL_REG_WRITE" "ioctl_reg_write env (init_world e) arg = (ret, w')"
    | (mr) "cmd = BESDBG_IOCTL_MEM_READ" "ioctl_mem_read env (init_world e) arg = (ret, w')"
    | (mw) "cmd = BESDBG_IOCTL_MEM_WRITE" "ioctl_mem_write env (init_world e) arg = (ret, w')"
    | (other) "w' = init_world e"
    using run by (auto simp: besdbg_ioctl_def split: if_splits)
  then show ?thesis
  proof cases
    case reset
    obtain r1 e1 where hr: "env_hw_reset env (ext (init_world e)) = (r1, e1)"
      by (metis prod.exhaust)
    obtain r2 e2 where en: "env_enable_func env e1 = (r2, e2)" by (metis prod.exhaust)
    from ioctl_reset_run(3) [OF hr en] reset(2) show ?thesis by simp
  next
    case rr
    from rr(2) show ?thesis by (cases rule: ioctl_reg_read_cases) simp_all
  next
    case rw
    from rw(2) show ?thesis
    proof (cases rule: ioctl_reg_write_cases)
      case (payloadfault r junk)
      then show ?thesis using rw(1) by auto
    qed simp_all
  next
    case mr
    from mr(2) show ?thesis by (cases rule: ioctl_mem_read_cases) simp_all
  next
    case mw
    from mw(2) show ?thesis
    proof (cases rule: ioctl_mem_write_cases)
      case (payloadfault r junk)
      then show ?thesis using mw(1) by auto
    qed simp_all
  next
    case other
    then show ?thesis by simp
  qed
qed

text \<open>
  Claim C3 says that the staging buffer is freed on every exit path, a fault of a user
  copy included. The source does not do that: in \<^verbatim>\<open>BESDBG_IOCTL_REG_WRITE\<close> and in
  \<^verbatim>\<open>BESDBG_IOCTL_MEM_WRITE\<close>, the \<^verbatim>\<open>return -EFAULT\<close> after the failed
  \<^verbatim>\<open>copy_from_user(data, ...)\<close> has no \<^verbatim>\<open>kfree(data)\<close>, while the two read operations
  free the buffer when \<^verbatim>\<open>copy_to_user\<close> fails. The code evaluated on a write request of
  4 bytes whose payload address is not accessible: the call returns \<open>-EFAULT\<close>, its log
  has the allocation and no \<^verbatim>\<open>kfree\<close>, and the buffer is still allocated afterwards.
\<close>

theorem write_payload_fault_leaks_buffer:
  "fst (besdbg_ioctl (mock_env bad_payload 0) (init_world 0) BESDBG_IOCTL_REG_WRITE 0x1000)
      = - EFAULT
   \<and> trace (snd (besdbg_ioctl (mock_env bad_payload 0) (init_world 0)
                   BESDBG_IOCTL_REG_WRITE 0x1000))
      = [CopyReq 0x1000 True, Kmalloc 4 True, CopyFromUser 0xBAD 4 False]
   \<and> kbufs (snd (besdbg_ioctl (mock_env bad_payload 0) (init_world 0)
                   BESDBG_IOCTL_REG_WRITE 0x1000)) 0
      = Some [0, 0, 0, 0]
   \<and> fst (besdbg_ioctl (mock_env bad_payload 0) (init_world 0) BESDBG_IOCTL_MEM_WRITE 0x1000)
      = - EFAULT
   \<and> trace (snd (besdbg_ioctl (mock_env bad_payload 0) (init_world 0)
                   BESDBG_IOCTL_MEM_WRITE 0x1000))
      = [CopyReq 0x1000 True, Kmalloc 4 True, CopyFromUser 0xBAD 4 False]
   \<and> kbufs (snd (besdbg_ioctl (mock_env bad_payload 0) (init_world 0)
                   BESDBG_IOCTL_MEM_WRITE 0x1000)) 0
      = Some [0, 0, 0, 0]"
  by code_simp

subsection \<open>Reset\<close>

text \<open>
  Claim C4. Whatever the hardware reset (\<open>r1\<close>) and the re-enabling of the function
  (\<open>r2\<close>) return, a reset request makes exactly these calls, in this order: wake line
  off, claim, hardware reset, a warning if and only if the reset failed, wake line on,
  10 ms of sleep, enable function, release. A failed reset does not stop the sequence.
  The call returns the result of the enabling (0, or its error), and after a failed
  enabling nothing but the release follows: the wake line stays on.
\<close>

theorem reset_sequence:
  assumes "env_hw_reset env e = (r1, e1)" and "env_enable_func env e1 = (r2, e2)"
  shows "besdbg_ioctl env (init_world e) BESDBG_IOCTL_RESET arg =
          (r2, (init_world e)\<lparr>ext := e2,
                 trace := [Gpio False, Claim, HwReset r1] @ (if r1 \<noteq> 0 then [DevWarn] else [])
                          @ [Gpio True, Msleep 10, EnableFunc r2, Release]\<rparr>)"
  using assms by (auto simp: besdbg_ioctl_def ioctl_reset_def service_defs Let_def init_world_def)

text \<open>A reset that fails, followed by an enabling that succeeds.\<close>

theorem reset_sequence_witness:
  "env_hw_reset (mock_env read4 1) 0 = (- 5, 1)
   \<and> env_enable_func (mock_env read4 1) 1 = (0, 2)
   \<and> besdbg_ioctl (mock_env read4 1) (init_world 0) BESDBG_IOCTL_RESET 0 =
          (0, (init_world 0)\<lparr>ext := 2,
                 trace := [Gpio False, Claim, HwReset (- 5)]
                          @ (if (- 5 :: int) \<noteq> 0 then [DevWarn] else [])
                          @ [Gpio True, Msleep 10, EnableFunc 0, Release]\<rparr>)"
proof -
  have h1: "env_hw_reset (mock_env read4 1) 0 = (- 5, 1)"
    by (simp add: mock_env_def mock_call_def mock_status_def)
  have h2: "env_enable_func (mock_env read4 1) 1 = (0, 2)"
    by (simp add: mock_env_def mock_call_def mock_status_def)
  show ?thesis
    by (rule conjI [OF h1 conjI [OF h2 reset_sequence [OF h1 h2]]])
qed

subsection \<open>Register transfers\<close>

text \<open>
  Claim C5. A register read that succeeds, for a request \<open>r\<close>, has a length \<open>N\<close> between
  1 and 32 and makes exactly \<open>N\<close> single-byte reads, in order, at the addresses
  \<open>reg r + i\<close> for \<open>i = 0, ..., N - 1\<close> (the address is an unsigned 32-bit value, and
  \<^verbatim>\<open>reg++\<close> wraps around at \<open>2^32\<close>); each of them succeeds, and the bytes handed to the
  client, at the address \<open>data r\<close>, are the bytes these reads returned, in the same
  order.
\<close>

theorem register_read_byte_sequence:
  assumes run: "besdbg_ioctl env (init_world e) BESDBG_IOCTL_REG_READ arg = (0, w')"
      and rq: "env_copy_req env e arg = Some r"
  shows "0 < unat (len r) \<and> unat (len r) \<le> 32
       \<and> map fst (bus_reads (trace w')) = map (\<lambda>i. reg r + of_nat i) [0..<unat (len r)]
       \<and> map (snd \<circ> snd) (bus_reads (trace w')) = replicate (unat (len r)) 0
       \<and> copied_out (trace w') = [(data r, map (fst \<circ> snd) (bus_reads (trace w')), True)]"
proof -
  have run': "ioctl_reg_read env (init_world e) arg = (0, w')"
    using run by (simp add: besdbg_ioctl_def ioctl_codes_distinct ioctl_codes_distinct [symmetric])
  from run' show ?thesis
  proof (cases rule: ioctl_reg_read_cases)
    case fault
    from fault(2) show ?thesis by (simp add: EFAULT_def)
  next
    case (invalid r')
    from invalid(3) show ?thesis by (simp add: EINVAL_def)
  next
    case (nomem r')
    from nomem(3) show ?thesis by (simp add: ENOMEM_def)
  next
    case (buserr r' rs)
    from buserr(7) show ?thesis by simp
  next
    case (copyfault r' rs)
    from copyfault(5) show ?thesis by (simp add: EFAULT_def)
  next
    case (success r' rs)
    have r': "r' = r" using success(1) rq by simp
    have errs: "map snd rs = replicate (length rs) 0"
      using success(4) by (induction rs) auto
    have vals: "map (fst \<circ> snd) (bus_reads (readb_events (reg r) rs)) = map fst rs"
      by (simp add: bus_reads_readb_events comp_def map_nth_f)
    have sts: "map (snd \<circ> snd) (bus_reads (readb_events (reg r) rs)) = map snd rs"
      by (simp add: bus_reads_readb_events comp_def map_nth_f)
    have addrs: "map fst (bus_reads (readb_events (reg r) rs))
        = map (\<lambda>i. reg r + of_nat i) [0..<length rs]"
      by (simp add: bus_reads_readb_events comp_def)
    have tr: "trace w' = [CopyReq arg True, Kmalloc (unat (len r)) True, Claim]
          @ readb_events (reg r) rs
          @ [Release, CopyToUser (data r) (map fst rs) True, Kfree 0]"
      using success(6) by (simp add: r')
    have br: "bus_reads (trace w') = bus_reads (readb_events (reg r) rs)"
      by (simp add: tr bus_reads_append)
    have co: "copied_out (trace w') = [(data r, map fst rs, True)]"
      by (simp add: tr copied_out_append)
    have len: "length rs = unat (len r)" using success(3) by (simp add: r')
    have c1: "0 < unat (len r) \<and> unat (len r) \<le> 32"
      using success(2) unfolding r' by (rule valid_len_read)
    have c2: "map fst (bus_reads (trace w')) = map (\<lambda>i. reg r + of_nat i) [0..<unat (len r)]"
      by (simp only: br addrs len)
    have c3: "map (snd \<circ> snd) (bus_reads (trace w')) = replicate (unat (len r)) 0"
      by (simp only: br sts errs len)
    have vs: "map (fst \<circ> snd) (bus_reads (trace w')) = map fst rs"
      by (simp only: br vals)
    have c4: "copied_out (trace w') = [(data r, map (fst \<circ> snd) (bus_reads (trace w')), True)]"
      unfolding vs by (rule co)
    show ?thesis
      by (rule conjI [OF conjunct1 [OF c1] conjI [OF conjunct2 [OF c1] conjI [OF c2 conjI [OF c3 c4]]]])
  qed
qed

text \<open>Two bytes from address \<open>0x10\<close>, where the bus holds \<open>AA BB\<close>.\<close>

theorem register_read_byte_sequence_witness:
  "besdbg_ioctl (mock_env read2 0) (init_world 0) BESDBG_IOCTL_REG_READ 0x1000
      = (0, snd (besdbg_ioctl (mock_env read2 0) (init_world 0) BESDBG_IOCTL_REG_READ 0x1000))
   \<and> env_copy_req (mock_env read2 0) 0 0x1000 = Some read2
   \<and> bus_reads (trace (snd (besdbg_ioctl (mock_env read2 0) (init_world 0)
                              BESDBG_IOCTL_REG_READ 0x1000)))
      = [(0x10, 0xAA, 0), (0x11, 0xBB, 0)]
   \<and> (0 < unat (len read2) \<and> unat (len read2) \<le> 32
       \<and> map fst (bus_reads (trace (snd (besdbg_ioctl (mock_env read2 0) (init_world 0)
                                         BESDBG_IOCTL_REG_READ 0x1000))))
          = map (\<lambda>i. reg read2 + of_nat i) [0..<unat (len read2)]
       \<and> map (snd \<circ> snd) (bus_reads (trace (snd (besdbg_ioctl (mock_env read2 0) (init_world 0)
                                         BESDBG_IOCTL_REG_READ 0x1000))))
          = replicate (unat (len read2)) 0
       \<and> copied_out (trace (snd (besdbg_ioctl (mock_env read2 0) (init_world 0)
                                   BESDBG_IOCTL_REG_READ 0x1000)))
          = [(data read2,
              map (fst \<circ> snd) (bus_reads (trace (snd (besdbg_ioctl (mock_env read2 0)
                  (init_world 0) BESDBG_IOCTL_REG_READ 0x1000)))), True)])"
proof -
  have f: "fst (besdbg_ioctl (mock_env read2 0) (init_world 0) BESDBG_IOCTL_REG_READ 0x1000) = 0"
    by code_simp
  have h1: "besdbg_ioctl (mock_env read2 0) (init_world 0) BESDBG_IOCTL_REG_READ 0x1000
      = (0, snd (besdbg_ioctl (mock_env read2 0) (init_world 0) BESDBG_IOCTL_REG_READ 0x1000))"
    by (rule run_pair [OF f])
  have h2: "env_copy_req (mock_env read2 0) 0 0x1000 = Some read2"
    by (simp add: mock_env_def mock_copy_req_def)
  have v: "bus_reads (trace (snd (besdbg_ioctl (mock_env read2 0) (init_world 0)
                              BESDBG_IOCTL_REG_READ 0x1000)))
      = [(0x10, 0xAA, 0), (0x11, 0xBB, 0)]"
    by code_simp
  show ?thesis
    by (rule conjI [OF h1 conjI [OF h2 conjI [OF v register_read_byte_sequence [OF h1 h2]]]])
qed

text \<open>
  The codec by itself, called on a buffer that has room for \<open>count\<close> bytes: it makes
  at most \<open>count\<close> single-byte transfers; a transfer that fails is the last one, and
  its error is the result; the result is 0 only after all \<open>count\<close> transfers.
\<close>

lemma byte_status_nonzero_last:
  assumes "\<forall>x \<in> set (butlast rs). snd x = 0" "i < length rs" "map snd rs ! i \<noteq> 0"
  shows "Suc i = length rs \<and> snd (last rs) = map snd rs ! i"
  using failed_transfer_is_last [OF assms(1,2)] assms(2,3) by simp

lemma codec_read_stops_at_failure:
  assumes run: "bes2600_sdio_reg_read env w rg (Ptr b off) count = (ret, w')"
      and live: "kbufs w b = Some buf"
      and room: "off + nat count \<le> length buf"
  shows "\<exists>errs. byte_status (trace w') = byte_status (trace w) @ errs
           \<and> length errs \<le> nat count
           \<and> (\<forall>i < length errs. errs ! i \<noteq> 0 \<longrightarrow> Suc i = length errs \<and> ret = errs ! i)
           \<and> (ret = 0 \<longrightarrow> length errs = nat count)"
proof (cases "count \<le> 0")
  case True
  with run have "w' = w" by (simp add: bes2600_sdio_reg_read_def)
  with True show ?thesis by (intro exI [of _ "[]"]) simp
next
  case False
  with run have lp: "reg_read_loop env w rg (Ptr b off) (nat count) 0 = (ret, w')"
    by (simp add: bes2600_sdio_reg_read_def)
  from reg_read_loop_run [OF lp live room] obtain rs where rs:
    "length rs \<le> nat count"
    "trace w' = trace w @ readb_events rg rs"
    "\<forall>x \<in> set (butlast rs). snd x = 0"
    "ret = (if rs = [] then 0 else snd (last rs))"
    "ret = 0 \<longrightarrow> length rs = nat count"
    by auto
  show ?thesis
  proof (intro exI [of _ "map snd rs"] conjI allI impI)
    show "byte_status (trace w') = byte_status (trace w) @ map snd rs"
      by (simp add: rs(2) byte_status_append)
    show "length (map snd rs) \<le> nat count" using rs(1) by simp
    show "length (map snd rs) = nat count" if "ret = 0" using rs(5) that by simp
  next
    fix i assume i: "i < length (map snd rs)" and bad: "map snd rs ! i \<noteq> 0"
    then have "i < length rs" by simp
    from byte_status_nonzero_last [OF rs(3) this bad] rs(4) i
    show "Suc i = length (map snd rs)" "ret = map snd rs ! i" by auto
  qed
qed

lemma codec_write_stops_at_failure:
  assumes run: "bes2600_sdio_reg_write env w rg (Ptr b off) count = (ret, w')"
      and live: "kbufs w b = Some buf"
      and room: "off + nat count \<le> length buf"
  shows "\<exists>errs. byte_status (trace w') = byte_status (trace w) @ errs
           \<and> length errs \<le> nat count
           \<and> (\<forall>i < length errs. errs ! i \<noteq> 0 \<longrightarrow> Suc i = length errs \<and> ret = errs ! i)
           \<and> (ret = 0 \<longrightarrow> length errs = nat count)"
proof (cases "count \<le> 0")
  case True
  with run have "w' = w" by (simp add: bes2600_sdio_reg_write_def)
  with True show ?thesis by (intro exI [of _ "[]"]) simp
next
  case False
  with run have lp: "reg_write_loop env w rg (Ptr b off) (nat count) 0 = (ret, w')"
    by (simp add: bes2600_sdio_reg_write_def)
  from reg_write_loop_run [OF lp live room] obtain rs where rs:
    "length rs \<le> nat count"
    "trace w' = trace w @ writeb_events rg rs"
    "\<forall>x \<in> set (butlast rs). snd x = 0"
    "ret = (if rs = [] then 0 else snd (last rs))"
    "ret = 0 \<longrightarrow> length rs = nat count"
    by auto
  show ?thesis
  proof (intro exI [of _ "map snd rs"] conjI allI impI)
    show "byte_status (trace w') = byte_status (trace w) @ map snd rs"
      by (simp add: rs(2) byte_status_append)
    show "length (map snd rs) \<le> nat count" using rs(1) by simp
    show "length (map snd rs) = nat count" if "ret = 0" using rs(5) that by simp
  next
    fix i assume i: "i < length (map snd rs)" and bad: "map snd rs ! i \<noteq> 0"
    then have "i < length rs" by simp
    from byte_status_nonzero_last [OF rs(3) this bad] rs(4) i
    show "Suc i = length (map snd rs)" "ret = map snd rs ! i" by auto
  qed
qed

text \<open>
  Claim C6. In a register read or a register write, when a single-byte transfer fails
  (the transfer number \<open>i\<close> of the call has a nonzero error), it is the last single-byte
  transfer of the call: the bytes after it are not attempted. The call returns the
  error of that transfer, and nothing is copied to the client, so the bytes read before
  the failure are dropped.
\<close>

theorem byte_transfer_failure_stops:
  assumes cmd: "cmd = BESDBG_IOCTL_REG_READ \<or> cmd = BESDBG_IOCTL_REG_WRITE"
      and run: "besdbg_ioctl env (init_world e) cmd arg = (ret, w')"
      and i: "i < length (byte_status (trace w'))"
      and bad: "byte_status (trace w') ! i \<noteq> 0"
  shows "Suc i = length (byte_status (trace w'))
       \<and> ret = byte_status (trace w') ! i
       \<and> copied_out (trace w') = []"
proof -
  from cmd show ?thesis
  proof
    assume c: "cmd = BESDBG_IOCTL_REG_READ"
    have run': "ioctl_reg_read env (init_world e) arg = (ret, w')"
      using run by (simp add: c besdbg_ioctl_def ioctl_codes_distinct ioctl_codes_distinct [symmetric])
    from run' show ?thesis
    proof (cases rule: ioctl_reg_read_cases)
      case fault
      with i show ?thesis by simp
    next
      case (invalid r)
      with i show ?thesis by simp
    next
      case (nomem r)
      with i show ?thesis by simp
    next
      case (buserr r rs)
      have bs: "byte_status (trace w') = map snd rs"
        by (simp add: buserr(8) byte_status_append)
      have co: "copied_out (trace w') = []"
        by (simp add: buserr(8) copied_out_append)
      have "i < length rs" "snd (rs ! i) \<noteq> 0" using i bad by (simp_all add: bs)
      from failed_transfer_is_last [OF buserr(5) this] buserr(6) co
      show ?thesis using \<open>i < length rs\<close> by (simp add: bs)
    next
      case (copyfault r rs)
      have bs: "byte_status (trace w') = map snd rs"
        by (simp add: copyfault(6) byte_status_append)
      with i bad copyfault(4) show ?thesis by simp
    next
      case (success r rs)
      have bs: "byte_status (trace w') = map snd rs"
        by (simp add: success(6) byte_status_append)
      with i bad success(4) show ?thesis by simp
    qed
  next
    assume c: "cmd = BESDBG_IOCTL_REG_WRITE"
    have run': "ioctl_reg_write env (init_world e) arg = (ret, w')"
      using run by (simp add: c besdbg_ioctl_def ioctl_codes_distinct ioctl_codes_distinct [symmetric])
    from run' show ?thesis
    proof (cases rule: ioctl_reg_write_cases)
      case fault
      with i show ?thesis by simp
    next
      case (invalid r)
      with i show ?thesis by simp
    next
      case (nomem r)
      with i show ?thesis by simp
    next
      case (payloadfault r junk)
      with i show ?thesis by simp
    next
      case (buserr r f rs)
      have bs: "byte_status (trace w') = map snd rs"
        by (simp add: buserr(10) byte_status_append)
      have co: "copied_out (trace w') = []"
        by (simp add: buserr(10) copied_out_append)
      have "i < length rs" "snd (rs ! i) \<noteq> 0" using i bad by (simp_all add: bs)
      from failed_transfer_is_last [OF buserr(7) this] buserr(8) co
      show ?thesis using \<open>i < length rs\<close> by (simp add: bs)
    next
      case (success r f rs)
      have bs: "byte_status (trace w') = map snd rs"
        by (simp add: success(8) byte_status_append)
      with i bad success(6) show ?thesis by simp
    qed
  qed
qed

text \<open>
  The scenario of the specification: the third of four register reads fails. The log
  shows three reads and no copy to the client.
\<close>

theorem byte_transfer_failure_stops_witness:
  "(BESDBG_IOCTL_REG_READ = BESDBG_IOCTL_REG_READ \<or> BESDBG_IOCTL_REG_READ = BESDBG_IOCTL_REG_WRITE)
   \<and> besdbg_ioctl (mock_env read4 3) (init_world 0) BESDBG_IOCTL_REG_READ 0x1000
      = (- 5, snd (besdbg_ioctl (mock_env read4 3) (init_world 0) BESDBG_IOCTL_REG_READ 0x1000))
   \<and> 2 < length (byte_status (trace (snd (besdbg_ioctl (mock_env read4 3) (init_world 0)
                                            BESDBG_IOCTL_REG_READ 0x1000))))
   \<and> byte_status (trace (snd (besdbg_ioctl (mock_env read4 3) (init_world 0)
                                BESDBG_IOCTL_REG_READ 0x1000))) ! 2 \<noteq> 0
   \<and> trace (snd (besdbg_ioctl (mock_env read4 3) (init_world 0) BESDBG_IOCTL_REG_READ 0x1000))
      = [CopyReq 0x1000 True, Kmalloc 4 True, Claim, ReadB 0x10 0xAA 0, ReadB 0x11 0xBB 0,
         ReadB 0x12 0xCC (- 5), Release, DevErr, Kfree 0]
   \<and> (Suc 2 = length (byte_status (trace (snd (besdbg_ioctl (mock_env read4 3) (init_world 0)
                                                BESDBG_IOCTL_REG_READ 0x1000))))
       \<and> - 5 = byte_status (trace (snd (besdbg_ioctl (mock_env read4 3) (init_world 0)
                                           BESDBG_IOCTL_REG_READ 0x1000))) ! 2
       \<and> copied_out (trace (snd (besdbg_ioctl (mock_env read4 3) (init_world 0)
                                   BESDBG_IOCTL_REG_READ 0x1000))) = [])"
proof -
  have h0: "BESDBG_IOCTL_REG_READ = BESDBG_IOCTL_REG_READ
              \<or> BESDBG_IOCTL_REG_READ = BESDBG_IOCTL_REG_WRITE"
    by simp
  have f: "fst (besdbg_ioctl (mock_env read4 3) (init_world 0) BESDBG_IOCTL_REG_READ 0x1000) = - 5"
    by code_simp
  have h1: "besdbg_ioctl (mock_env read4 3) (init_world 0) BESDBG_IOCTL_REG_READ 0x1000
      = (- 5, snd (besdbg_ioctl (mock_env read4 3) (init_world 0) BESDBG_IOCTL_REG_READ 0x1000))"
    by (rule run_pair [OF f])
  have h2: "2 < length (byte_status (trace (snd (besdbg_ioctl (mock_env read4 3) (init_world 0)
                                            BESDBG_IOCTL_REG_READ 0x1000))))"
    by code_simp
  have h3: "byte_status (trace (snd (besdbg_ioctl (mock_env read4 3) (init_world 0)
                                BESDBG_IOCTL_REG_READ 0x1000))) ! 2 \<noteq> 0"
    by code_simp
  have v: "trace (snd (besdbg_ioctl (mock_env read4 3) (init_world 0) BESDBG_IOCTL_REG_READ 0x1000))
      = [CopyReq 0x1000 True, Kmalloc 4 True, Claim, ReadB 0x10 0xAA 0, ReadB 0x11 0xBB 0,
         ReadB 0x12 0xCC (- 5), Release, DevErr, Kfree 0]"
    by code_simp
  show ?thesis
    by (rule conjI [OF h0 conjI [OF h1 conjI [OF h2 conjI [OF h3 conjI [OF v
          byte_transfer_failure_stops [OF h0 h1 h2 h3]]]]]])
qed

subsection \<open>Block transfers\<close>

text \<open>
  Claim C7. A block read that succeeds makes exactly one transfer on the bus, a
  \<^verbatim>\<open>sdio_memcpy_fromio\<close> at the address of the request and of the length of the request.
  A block write that succeeds makes exactly one transfer, a \<^verbatim>\<open>sdio_memcpy_toio\<close> at the
  address of the request, of the payload copied from the client, which has the length of
  the request. There is no loop that splits the transfer.
\<close>

theorem block_transfer_single_call:
  assumes run: "besdbg_ioctl env (init_world e) cmd arg = (0, w')"
      and rq: "env_copy_req env e arg = Some r"
  shows "(cmd = BESDBG_IOCTL_MEM_READ \<longrightarrow>
            filter is_transfer (trace w') = [MemcpyFromio (reg r) (unat (len r)) 0])
       \<and> (cmd = BESDBG_IOCTL_MEM_WRITE \<longrightarrow>
            (\<exists>f. env_copy_from_user env e (data r) (unat (len r)) = Some f
               \<and> filter is_transfer (trace w') =
                    [MemcpyToio (reg r) (map f [0..<unat (len r)]) 0]))"
proof (intro conjI impI)
  assume c: "cmd = BESDBG_IOCTL_MEM_READ"
  have run': "ioctl_mem_read env (init_world e) arg = (0, w')"
    using run by (simp add: c besdbg_ioctl_def ioctl_codes_distinct ioctl_codes_distinct [symmetric])
  from run' show "filter is_transfer (trace w') = [MemcpyFromio (reg r) (unat (len r)) 0]"
  proof (cases rule: ioctl_mem_read_cases)
    case fault
    from fault(2) show ?thesis by (simp add: EFAULT_def)
  next
    case (invalid r')
    from invalid(3) show ?thesis by (simp add: EINVAL_def)
  next
    case (nomem r')
    from nomem(3) show ?thesis by (simp add: ENOMEM_def)
  next
    case (buserr r')
    from buserr(3) show ?thesis by simp
  next
    case (copyfault r' bs)
    from copyfault(3) show ?thesis by (simp add: EFAULT_def)
  next
    case (success r' bs)
    have "r' = r" using success(1) rq by simp
    then show ?thesis by (simp add: success(5))
  qed
next
  assume c: "cmd = BESDBG_IOCTL_MEM_WRITE"
  have run': "ioctl_mem_write env (init_world e) arg = (0, w')"
    using run by (simp add: c besdbg_ioctl_def ioctl_codes_distinct ioctl_codes_distinct [symmetric])
  from run' show "\<exists>f. env_copy_from_user env e (data r) (unat (len r)) = Some f
               \<and> filter is_transfer (trace w') =
                    [MemcpyToio (reg r) (map f [0..<unat (len r)]) 0]"
  proof (cases rule: ioctl_mem_write_cases)
    case fault
    from fault(2) show ?thesis by (simp add: EFAULT_def)
  next
    case (invalid r')
    from invalid(3) show ?thesis by (simp add: EINVAL_def)
  next
    case (nomem r')
    from nomem(3) show ?thesis by (simp add: ENOMEM_def)
  next
    case (payloadfault r' junk)
    from payloadfault(4) show ?thesis by (simp add: EFAULT_def)
  next
    case (buserr r' f)
    from buserr(4) show ?thesis by simp
  next
    case (success r' f)
    have "r' = r" using success(1) rq by simp
    then show ?thesis using success(3) by (simp add: success(5))
  qed
qed

text \<open>A block read of 8 bytes at \<open>0x1000\<close>.\<close>

theorem block_transfer_single_call_witness:
  "besdbg_ioctl (mock_env block8 0) (init_world 0) BESDBG_IOCTL_MEM_READ 0x1000
      = (0, snd (besdbg_ioctl (mock_env block8 0) (init_world 0) BESDBG_IOCTL_MEM_READ 0x1000))
   \<and> env_copy_req (mock_env block8 0) 0 0x1000 = Some block8
   \<and> filter is_transfer (trace (snd (besdbg_ioctl (mock_env block8 0) (init_world 0)
                                       BESDBG_IOCTL_MEM_READ 0x1000)))
      = [MemcpyFromio 0x1000 8 0]
   \<and> filter is_transfer (trace (snd (besdbg_ioctl (mock_env block8 0) (init_world 0)
                                       BESDBG_IOCTL_MEM_READ 0x1000)))
      = [MemcpyFromio (reg block8) (unat (len block8)) 0]"
proof -
  have f: "fst (besdbg_ioctl (mock_env block8 0) (init_world 0) BESDBG_IOCTL_MEM_READ 0x1000) = 0"
    by code_simp
  have h1: "besdbg_ioctl (mock_env block8 0) (init_world 0) BESDBG_IOCTL_MEM_READ 0x1000
      = (0, snd (besdbg_ioctl (mock_env block8 0) (init_world 0) BESDBG_IOCTL_MEM_READ 0x1000))"
    by (rule run_pair [OF f])
  have h2: "env_copy_req (mock_env block8 0) 0 0x1000 = Some block8"
    by (simp add: mock_env_def mock_copy_req_def)
  have v: "filter is_transfer (trace (snd (besdbg_ioctl (mock_env block8 0) (init_world 0)
                                       BESDBG_IOCTL_MEM_READ 0x1000)))
      = [MemcpyFromio 0x1000 8 0]"
    by code_simp
  note c = block_transfer_single_call [OF h1 h2, THEN conjunct1, THEN mp, OF refl]
  show ?thesis
    by (rule conjI [OF h1 conjI [OF h2 conjI [OF v c]]])
qed

subsection \<open>The checks of the register codec\<close>

text \<open>
  Claim C8 says that the register codec does not check \<open>count > 0\<close> and the buffer
  pointer. The source does: both \<^verbatim>\<open>bes2600_sdio_reg_read\<close> and \<^verbatim>\<open>bes2600_sdio_reg_write\<close>
  start with \<^verbatim>\<open>if (count <= 0 || !dst) return -EINVAL;\<close>. With a count of 0 the codec of
  the source returns \<open>-EINVAL\<close>, where the loop alone makes no iteration and returns 0;
  with a null pointer it returns \<open>-EINVAL\<close> too.
\<close>

theorem codec_unchecked_counterexample:
  "fst (bes2600_sdio_reg_read (mock_env read4 0) (init_world 0) 0x10 (Ptr 0 0) 0) = - EINVAL
   \<and> fst (spec_reg_read (mock_env read4 0) (init_world 0) 0x10 (Ptr 0 0) 0) = 0
   \<and> fst (bes2600_sdio_reg_write (mock_env read4 0) (init_world 0) 0x10 NULL 4) = - EINVAL"
  by code_simp

text \<open>
  The dispatcher never gives the codec arguments that the codec rejects: once a register
  read or write has claimed the host, at least one single-byte transfer is made.
\<close>

lemma codec_called_with_valid_arguments:
  assumes cmd: "cmd = BESDBG_IOCTL_REG_READ \<or> cmd = BESDBG_IOCTL_REG_WRITE"
      and claimed: "Claim \<in> set (trace (snd (besdbg_ioctl env (init_world e) cmd arg)))"
  shows "byte_status (trace (snd (besdbg_ioctl env (init_world e) cmd arg))) \<noteq> []"
proof -
  obtain ret w' where run: "besdbg_ioctl env (init_world e) cmd arg = (ret, w')"
    by (metis prod.exhaust)
  have cl: "Claim \<in> set (trace w')" using claimed by (simp add: run)
  have "byte_status (trace w') \<noteq> []"
    using cmd
  proof
    assume c: "cmd = BESDBG_IOCTL_REG_READ"
    have run': "ioctl_reg_read env (init_world e) arg = (ret, w')"
      using run by (simp add: c besdbg_ioctl_def ioctl_codes_distinct ioctl_codes_distinct [symmetric])
    from run' show ?thesis
    proof (cases rule: ioctl_reg_read_cases)
      case fault
      with cl show ?thesis by simp
    next
      case (invalid r)
      with cl show ?thesis by simp
    next
      case (nomem r)
      with cl show ?thesis by simp
    next
      case (buserr r rs)
      then show ?thesis by (simp add: byte_status_append)
    next
      case (copyfault r rs)
      have "rs \<noteq> []" using copyfault(2,3) valid_len_read [of "len r" "data r"] by auto
      then show ?thesis by (simp add: copyfault(6) byte_status_append)
    next
      case (success r rs)
      have "rs \<noteq> []" using success(2,3) valid_len_read [of "len r" "data r"] by auto
      then show ?thesis by (simp add: success(6) byte_status_append)
    qed
  next
    assume c: "cmd = BESDBG_IOCTL_REG_WRITE"
    have run': "ioctl_reg_write env (init_world e) arg = (ret, w')"
      using run by (simp add: c besdbg_ioctl_def ioctl_codes_distinct ioctl_codes_distinct [symmetric])
    from run' show ?thesis
    proof (cases rule: ioctl_reg_write_cases)
      case fault
      with cl show ?thesis by simp
    next
      case (invalid r)
      with cl show ?thesis by simp
    next
      case (nomem r)
      with cl show ?thesis by simp
    next
      case (payloadfault r junk)
      with cl show ?thesis by simp
    next
      case (buserr r f rs)
      then show ?thesis by (simp add: byte_status_append)
    next
      case (success r f rs)
      have "0 < unat (len r)" using success(2) by (simp add: unat_gt_0)
      then have "rs \<noteq> []" using success(4) by auto
      then show ?thesis by (simp add: success(8) byte_status_append)
    qed
  qed
  then show ?thesis by (simp add: run)
qed

text \<open>
  Claim C8, amended. The register codec checks its arguments itself: when the count is
  not positive or the buffer pointer is null, it returns \<open>-EINVAL\<close> and makes no call at
  all (the world is unchanged), so this error result is part of its behaviour; on all
  other arguments it is the byte loop of the specification. The checks are made by the
  codec as well as by the dispatcher, whose own validation comes first: whenever the
  dispatcher calls the codec (the host has been claimed for a register read or write),
  the codec goes on to transfer at least one byte.
\<close>

theorem codec_checks_its_arguments:
  "bes2600_sdio_reg_read env w rg p count =
     (if count \<le> 0 \<or> p = NULL then (- EINVAL, w) else spec_reg_read env w rg p count)
 \<and> bes2600_sdio_reg_write env w rg p count =
     (if count \<le> 0 \<or> p = NULL then (- EINVAL, w) else spec_reg_write env w rg p count)
 \<and> (cmd = BESDBG_IOCTL_REG_READ \<or> cmd = BESDBG_IOCTL_REG_WRITE \<longrightarrow>
      Claim \<in> set (trace (snd (besdbg_ioctl env (init_world e) cmd arg))) \<longrightarrow>
      byte_status (trace (snd (besdbg_ioctl env (init_world e) cmd arg))) \<noteq> [])"
proof (intro conjI impI)
  show "bes2600_sdio_reg_read env w rg p count =
     (if count \<le> 0 \<or> p = NULL then (- EINVAL, w) else spec_reg_read env w rg p count)"
    by (simp add: bes2600_sdio_reg_read_def spec_reg_read_def)
  show "bes2600_sdio_reg_write env w rg p count =
     (if count \<le> 0 \<or> p = NULL then (- EINVAL, w) else spec_reg_write env w rg p count)"
    by (simp add: bes2600_sdio_reg_write_def spec_reg_write_def)
next
  assume "cmd = BESDBG_IOCTL_REG_READ \<or> cmd = BESDBG_IOCTL_REG_WRITE"
    and "Claim \<in> set (trace (snd (besdbg_ioctl env (init_world e) cmd arg)))"
  then show "byte_status (trace (snd (besdbg_ioctl env (init_world e) cmd arg))) \<noteq> []"
    by (rule codec_called_with_valid_arguments)
qed

text \<open>
  The codec called with a null pointer, and a register read of two bytes through the
  dispatcher.
\<close>

theorem codec_checks_its_arguments_witness:
  "bes2600_sdio_reg_read (mock_env read2 0) (init_world 0) 0x10 NULL 4
      = (- EINVAL, init_world 0)
 \<and> Claim \<in> set (trace (snd (besdbg_ioctl (mock_env read2 0) (init_world 0)
                                BESDBG_IOCTL_REG_READ 0x1000)))
 \<and> byte_status (trace (snd (besdbg_ioctl (mock_env read2 0) (init_world 0)
                                BESDBG_IOCTL_REG_READ 0x1000))) \<noteq> []"
proof -
  note t = codec_checks_its_arguments [of "mock_env read2 0" "init_world 0" "0x10" NULL 4
      BESDBG_IOCTL_REG_READ 0 "0x1000"]
  have a: "bes2600_sdio_reg_read (mock_env read2 0) (init_world 0) 0x10 NULL 4
      = (- EINVAL, init_world 0)"
    using t [THEN conjunct1] by simp
  have cl: "Claim \<in> set (trace (snd (besdbg_ioctl (mock_env read2 0) (init_world 0)
                                BESDBG_IOCTL_REG_READ 0x1000)))"
    by code_simp
  have b: "byte_status (trace (snd (besdbg_ioctl (mock_env read2 0) (init_world 0)
                                BESDBG_IOCTL_REG_READ 0x1000))) \<noteq> []"
    by (rule t [THEN conjunct2, THEN conjunct2, THEN mp, THEN mp, OF disjI1 [OF refl] cl])
  show ?thesis
    by (rule conjI [OF a conjI [OF cl b]])
qed

subsection \<open>Detaching twice\<close>

text \<open>
  Claim C9. The first detach leaves the driver data of the function cleared. A second
  detach right after it finds the cleared handle and changes nothing: it makes no call
  and leaves the state as it is. Over the two calls the wake line is switched off at most
  once, the function is disabled at most once, and nothing is freed.
\<close>

theorem detach_twice:
  "besdbg_disconnect env (besdbg_disconnect env (dd, init_world e))
      = besdbg_disconnect env (dd, init_world e)
 \<and> fst (besdbg_disconnect env (dd, init_world e)) = None
 \<and> length (filter (\<lambda>ev. ev = Gpio False)
       (trace (snd (besdbg_disconnect env (besdbg_disconnect env (dd, init_world e)))))) \<le> 1
 \<and> length (filter is_disable
       (trace (snd (besdbg_disconnect env (besdbg_disconnect env (dd, init_world e)))))) \<le> 1
 \<and> filter is_kfree
       (trace (snd (besdbg_disconnect env (besdbg_disconnect env (dd, init_world e))))) = []"
  by (cases dd; cases "env_disable_func env e")
     (auto simp: besdbg_disconnect_def service_defs Let_def init_world_def)

text \<open>Two detaches of an attached device: the log is the log of one teardown.\<close>

theorem detach_twice_witness:
  "trace (snd (besdbg_disconnect (mock_env read4 0)
          (besdbg_disconnect (mock_env read4 0) (Some \<lparr>major = 240\<rparr>, init_world 0))))
     = [CdevDel, UnregisterChrdev 240, DeviceDestroy 240, Claim, DisableFunc 0, Release,
        Gpio False]
 \<and> besdbg_disconnect (mock_env read4 0)
          (besdbg_disconnect (mock_env read4 0) (Some \<lparr>major = 240\<rparr>, init_world 0))
     = besdbg_disconnect (mock_env read4 0) (Some \<lparr>major = 240\<rparr>, init_world 0)"
proof -
  have v: "trace (snd (besdbg_disconnect (mock_env read4 0)
          (besdbg_disconnect (mock_env read4 0) (Some \<lparr>major = 240\<rparr>, init_world 0))))
     = [CdevDel, UnregisterChrdev 240, DeviceDestroy 240, Claim, DisableFunc 0, Release,
        Gpio False]"
    by code_simp
  show ?thesis
    by (rule conjI [OF v conjunct1 [OF detach_twice]])
qed

subsection \<open>The reset and other requests\<close>

text \<open>
  Claim C10 says that the reset holds the host from the hardware reset to the
  re-enabling of the function, and adds that all other requests block for at least the
  settle delay. The first part holds (it is proved below). The addition does not: only
  a request that claims the host waits for the reset, and the dispatcher reads and
  validates a request before it claims the host (it claims it only after the buffer is
  allocated). A register read of length 0 that arrives after the hardware reset is read,
  rejected with \<open>-EINVAL\<close> and over before the reset has begun to sleep: in the
  schedule below, which respects the lock, the whole log of request 1 lies between the
  hardware reset and the sleep of request 0.
\<close>

theorem other_request_does_not_block_counterexample:
  "thread_events 0 early_schedule =
      trace (snd (besdbg_ioctl (mock_env len0 0) (init_world 0) BESDBG_IOCTL_RESET 0))
   \<and> thread_events 1 early_schedule =
      trace (snd (besdbg_ioctl (mock_env len0 0) (init_world 0) BESDBG_IOCTL_REG_READ 0x1000))
   \<and> fst (besdbg_ioctl (mock_env len0 0) (init_world 0) BESDBG_IOCTL_REG_READ 0x1000)
      = - EINVAL
   \<and> host_ok None early_schedule
   \<and> early_schedule
      = early_s1 @ (0, HwReset 0) # early_s2 @ (0, EnableFunc 0) # early_s3
   \<and> early_s2 = [(0, Gpio True), (1, CopyReq 0x1000 True), (0, Msleep 10)]
   \<and> thread_events 1 early_s2 = thread_events 1 early_schedule
   \<and> thread_events 1 early_s2 = [CopyReq 0x1000 True]"
  by code_simp

text \<open>
  Claim C10, amended. Take any schedule \<open>s\<close> of requests running at once, a reset
  (request 0) and any number of other requests (request \<open>t + 1\<close> is any call of the
  dispatcher), that respects the lock of the host. Between the hardware reset and the
  re-enabling of the function, the reset switches the wake line on and sleeps 10 ms
  (after the warning, if the reset failed), and in that stretch of the schedule nobody
  claims or releases the host and no other request makes a call that uses the bus: the
  reset holds the host from the hardware reset to the re-enabling, the settle delay
  included, so that no bus transfer of another request falls into that sequence. A
  request waits for the reset only when it claims the host; the steps that a request
  makes without the host (reading and validating the request, allocating the buffer,
  copying the payload in) may fall into that stretch.
\<close>

theorem reset_holds_host_throughout:
  assumes A: "thread_events 0 s =
                trace (snd (besdbg_ioctl env (init_world e) BESDBG_IOCTL_RESET arg))"
      and B: "\<And>t. thread_events (Suc t) s =
                trace (snd (besdbg_ioctl (envs t) (init_world (es t)) (cmds t) (args t)))"
      and ok: "host_ok None s"
      and s: "s = s1 @ (0, HwReset r1) # s2 @ (0, EnableFunc r2) # s3"
  shows "thread_events 0 s2 = (if r1 \<noteq> 0 then [DevWarn] else []) @ [Gpio True, Msleep 10]
       \<and> (\<forall>t ev. (t, ev) \<in> set s2 \<longrightarrow>
             ev \<noteq> Claim \<and> ev \<noteq> Release \<and> (t \<noteq> 0 \<longrightarrow> \<not> on_bus ev))"
proof -
  obtain ra ea where hr: "env_hw_reset env e = (ra, ea)" by (metis prod.exhaust)
  obtain rb eb where en: "env_enable_func env ea = (rb, eb)" by (metis prod.exhaust)
  let ?W = "if ra \<noteq> 0 then [DevWarn] else []"
  have TA: "thread_events 0 s =
      [Gpio False, Claim, HwReset ra] @ ?W @ [Gpio True, Msleep 10, EnableFunc rb, Release]"
    using ioctl_reset_run(2) [of env "init_world e", OF _ en] hr
    by (simp add: A besdbg_ioctl_def)
  have eq: "thread_events 0 s1 @ HwReset r1 # thread_events 0 s2
              @ EnableFunc r2 # thread_events 0 s3 =
       [Gpio False, Claim, HwReset ra] @ ?W @ [Gpio True, Msleep 10, EnableFunc rb, Release]"
    using TA by (simp add: s)
  have W: "?W = [] \<or> ?W = [DevWarn]" by simp
  have r1: "r1 = ra" using eq by (auto simp: append_eq_Cons_conv Cons_eq_append_conv split: if_splits)
  note sp = reset_split [OF eq W]
  have A1: "thread_events 0 s1 = [Gpio False, Claim]"
    and A2: "thread_events 0 s2 = ?W @ [Gpio True, Msleep 10]"
    using sp by blast+
  have ok1: "host_ok None s1"
    and ok2: "host_ok (holder_after None s1) ((0, HwReset r1) # s2 @ (0, EnableFunc r2) # s3)"
    using ok by (simp_all add: s host_ok_append)
  have h1: "holder_after None s1 = Some 0"
    by (rule holder_after_claim [OF ok1]) (simp_all add: A1)
  have ok3: "host_ok (Some 0) s2"
    using ok2 h1 by (simp add: host_ok_append)
  have norel: "Release \<notin> set (thread_events 0 s2)" by (simp add: A2)
  have gr: "guard_run False (thread_events t s2 @ thread_events t s3) \<noteq> None" if t: "t \<noteq> 0" for t
  proof -
    obtain t' where t': "t = Suc t'" using t by (cases t) auto
    have "guard_run False (thread_events t s) = Some False"
      unfolding t' B by (rule ioctl_guard_run)
    then have "guard_run False (thread_events t s1
               @ (thread_events t s2 @ thread_events t s3)) \<noteq> None"
      using t by (simp add: s)
    from guard_run_prefix [OF this] obtain hB where
      hB: "guard_run False (thread_events t s1) = Some hB"
      and rest: "guard_run hB (thread_events t s2 @ thread_events t s3) \<noteq> None"
      by blast
    have "hB \<longleftrightarrow> holder_after None s1 = Some t"
      by (rule thread_view [OF ok1 hB]) simp
    then have "\<not> hB" using t by (simp add: h1)
    with rest show ?thesis by simp
  qed
  have excl: "\<forall>t ev. (t, ev) \<in> set s2 \<longrightarrow>
             ev \<noteq> Claim \<and> ev \<noteq> Release \<and> (t \<noteq> 0 \<longrightarrow> \<not> on_bus ev)"
    using held_excludes [OF ok3 norel _ gr] by blast
  show ?thesis using A2 excl r1 by simp
qed

text \<open>
  A reset and a one-byte register read: the read is validated and allocates its buffer
  while the reset holds the host, and transfers its byte after the release.
\<close>

theorem reset_holds_host_throughout_witness:
  "thread_events 0 demo_schedule =
      trace (snd (besdbg_ioctl (mock_env read1 0) (init_world 0) BESDBG_IOCTL_RESET 0))
   \<and> (\<forall>t. thread_events (Suc t) demo_schedule =
      trace (snd (besdbg_ioctl (mock_env read1 0) (init_world 0) (demo_cmds t) 0x1000)))
   \<and> host_ok None demo_schedule
   \<and> demo_schedule = demo_s1 @ (0, HwReset 0) # demo_s2 @ (0, EnableFunc 0) # demo_s3
   \<and> (1, Kmalloc 1 True) \<in> set demo_s2
   \<and> thread_events 0 demo_s2
         = (if (0::int) \<noteq> 0 then [DevWarn] else []) @ [Gpio True, Msleep 10]
   \<and> Kmalloc 1 True \<noteq> Claim \<and> Kmalloc 1 True \<noteq> Release
   \<and> \<not> on_bus (Kmalloc 1 True)"
proof -
  have A: "thread_events 0 demo_schedule =
      trace (snd (besdbg_ioctl (mock_env read1 0) (init_world 0) BESDBG_IOCTL_RESET 0))"
    by code_simp
  have B0: "thread_events (Suc 0) demo_schedule =
      trace (snd (besdbg_ioctl (mock_env read1 0) (init_world 0) BESDBG_IOCTL_REG_READ 0x1000))"
    by code_simp
  have none: "trace (snd (besdbg_ioctl (mock_env read1 0) (init_world 0) 0 0x1000)) = []"
    by code_simp
  have B: "thread_events (Suc t) demo_schedule =
      trace (snd (besdbg_ioctl (mock_env read1 0) (init_world 0) (demo_cmds t) 0x1000))" for t
  proof (cases "t = 0")
    case True
    then show ?thesis using B0 by (simp add: demo_cmds_def)
  next
    case False
    then have "thread_events (Suc t) demo_schedule = []"
      by (simp add: demo_schedule_def demo_s1_def demo_s2_def demo_s3_def)
    then show ?thesis using False none by (simp add: demo_cmds_def)
  qed
  have ok: "host_ok None demo_schedule"
    by code_simp
  have s: "demo_schedule = demo_s1 @ (0, HwReset 0) # demo_s2 @ (0, EnableFunc 0) # demo_s3"
    by (rule demo_schedule_def)
  have m: "(1, Kmalloc 1 True) \<in> set demo_s2"
    by (simp add: demo_s2_def)
  note c = reset_holds_host_throughout [of demo_schedule "mock_env read1 0" 0 0
      "\<lambda>t. mock_env read1 0" "\<lambda>t. 0" demo_cmds "\<lambda>t. 0x1000", OF A B ok s]
  have c1: "thread_events 0 demo_s2
         = (if (0::int) \<noteq> 0 then [DevWarn] else []) @ [Gpio True, Msleep 10]"
    by (rule conjunct1 [OF c])
  have c2: "Kmalloc 1 True \<noteq> Claim \<and> Kmalloc 1 True \<noteq> Release
              \<and> ((1::nat) \<noteq> 0 \<longrightarrow> \<not> on_bus (Kmalloc 1 True))"
    by (rule conjunct2 [OF c, THEN spec, THEN spec, THEN mp, OF m])
  have c3: "\<not> on_bus (Kmalloc 1 True)"
    by (rule c2 [THEN conjunct2, THEN conjunct2, THEN mp]) simp
  have Ball: "\<forall>t. thread_events (Suc t) demo_schedule =
      trace (snd (besdbg_ioctl (mock_env read1 0) (init_world 0) (demo_cmds t) 0x1000))"
    using B by blast
  show ?thesis
    by (rule conjI [OF A conjI [OF Ball conjI [OF ok conjI [OF s conjI [OF m conjI [OF c1
          conjI [OF conjunct1 [OF c2] conjI [OF conjunct1 [OF conjunct2 [OF c2]] c3]]]]]]]])
qed

end
